theory Spec2Isabelle
  imports Main "HOL-Library.AList"
begin

section \<open>Matrix-free operator inversion: \<^verbatim>\<open>include/bout/invertable_operator.hxx\<close>\<close>

text \<open>
  A shallow embedding of the class template \<^verbatim>\<open>InvertableOperator<T>\<close> and of the two
  free marshalling functions \<^verbatim>\<open>fieldToPetscVec\<close> and \<^verbatim>\<open>petscVecToField\<close>.

  PETSc is an external library and the field classes are not part of the sources at hand,
  so what they do is taken as a parameter (the record \<open>env\<close> below) or modelled from the
  specification, each time under a comment that says so. Scalars (\<^verbatim>\<open>BoutReal\<close>,
  \<^verbatim>\<open>PetscScalar\<close>) are one type variable \<open>'a\<close>: the marshalling code only copies them.
  The counters \<^verbatim>\<open>int counter\<close> and \<^verbatim>\<open>PetscInt nlocal\<close> are natural numbers here; local
  grid sizes stay far below the range where a C \<^verbatim>\<open>int\<close> wraps.

  Left out: the \<^verbatim>\<open>Timer\<close> objects and \<^verbatim>\<open>reportTime\<close> (wall-clock time), the \<^verbatim>\<open>TRACE\<close>
  macros and the printing under \<^verbatim>\<open>CHECK > 3\<close> (no effect on any result), and the
  destructor.
\<close>

subsection \<open>Errors\<close>

type_synonym PetscErrorCode = int

text \<open>
  \<^item> \<open>BoutException fmt args\<close>: a \<^verbatim>\<open>throw BoutException(fmt, args...)\<close>, with the format
    string and its integer arguments.
  \<^item> \<open>PetscError code\<close>: the early \<^verbatim>\<open>return\<close> that \<^verbatim>\<open>CHKERRQ(ierr)\<close> performs when \<open>ierr\<close> is not
    zero (in a function that returns a \<^verbatim>\<open>PetscErrorCode\<close>).
  \<^item> \<open>UndefinedBehaviour\<close>: the code reads or writes outside an array, reads a field
    that has no data, or uses a handle or object that was never created. The source has
    no check at these places; C++ gives such an execution no meaning.
\<close>

datatype error =
    BoutException string "int list"
  | PetscError PetscErrorCode
  | UndefinedBehaviour

subsection \<open>Grid fields and flat vectors\<close>

text \<open>
  Modelled from the spec: the mesh and field classes (\<^verbatim>\<open>Mesh\<close>, \<^verbatim>\<open>Field3D\<close>, \<^verbatim>\<open>Field2D\<close>,
  \<^verbatim>\<open>FieldPerp\<close>) are missing from the sources. The specification gives a GridField a
  local element count determined by the grid that owns it, a fixed iteration order over
  its local elements, and an allocated/unallocated flag. A mesh is an identity together
  with the local element count of a \<^verbatim>\<open>T\<close> on it; a field is its mesh and, once allocated,
  its local elements in iteration order.
\<close>

datatype Mesh = Mesh (mesh_id: nat) (LocalSize: nat)

record 'a GridField =
  getMesh :: Mesh
  fdata :: "'a list option"

text \<open>\<^verbatim>\<open>T f(localmesh)\<close>: a field on a mesh, without data.\<close>

definition T_ctor :: "Mesh \<Rightarrow> 'a GridField" where
  "T_ctor localmesh = \<lparr>getMesh = localmesh, fdata = None\<rparr>"

text \<open>The indices that \<^verbatim>\<open>for (const auto &i : f)\<close> visits, in order.\<close>

definition field_indices :: "'a GridField \<Rightarrow> nat list" where
  "field_indices f = [0..<LocalSize (getMesh f)]"

text \<open>An allocated field holds exactly one scalar for every index of its mesh.\<close>

definition allocated :: "'a GridField \<Rightarrow> bool" where
  "allocated f = (case fdata f of None \<Rightarrow> False
                  | Some d \<Rightarrow> length d = LocalSize (getMesh f))"

type_synonym 'a Vec = "'a list"

subsection \<open>The external parts, as parameters\<close>

datatype petsc_call =
    MatCreateShell | MatCreateVecs | MatShellSetOperation | KSPCreate | KSPSetOperators
  | KSPSetOptionsPrefix | KSPSetFromOptions | KSPSetUp | KSPSolve | KSPGetConvergedReason
  | MatShellGetContext | VecGetArray | VecRestoreArray | VecGetArrayRead
  | VecRestoreArrayRead

datatype Options = Root | Section Options string

datatype 'a ksp_step = Multiply "'a Vec" "nat \<Rightarrow> 'a" | Stop int "nat \<Rightarrow> 'a"

text \<open>
  \<^item> \<open>CHECK\<close>: the build-time check level (the macro \<^verbatim>\<open>CHECK\<close>).
  \<^item> \<open>mesh\<close>: the global \<^verbatim>\<open>mesh\<close> of \<^verbatim>\<open>globals.hxx\<close>.
  \<^item> \<open>ierr c\<close>: the error code that the PETSc call \<open>c\<close> returns in this run.
  \<^item> \<open>junk i\<close>: what entry \<open>i\<close> of newly allocated, not yet written memory holds.
  \<^item> \<open>solver b x ys\<close>: the Krylov method behind \<^verbatim>\<open>KSPSolve\<close>, as what it does next, given
    the right-hand side \<open>b\<close>, the old contents \<open>x\<close> of the solution vector and the
    products \<open>ys\<close> that its multiplications have returned so far: it asks for one more
    multiplication of a trial vector (and says which iterate it holds meanwhile), or it
    stops with a convergence reason and the entries it leaves in the solution vector.
  \<^item> \<open>max_it\<close>: the iteration limit of the \<^verbatim>\<open>KSP\<close>, as a bound on its multiplications.
  \<^item> \<open>T_of_ierr\<close>: \<^verbatim>\<open>CHKERRQ\<close> contains a \<^verbatim>\<open>return\<close> of the error code (the comment in
    \<^verbatim>\<open>setup\<close> says so); inside \<^verbatim>\<open>T invert(...)\<close> that statement returns a \<^verbatim>\<open>T\<close> made
    from the code by an implicit conversion of the field class. The conversion is not
    in the sources.
  \<^item> \<open>field_minus\<close>, \<open>field_abs\<close>, \<open>field_max\<close>, \<open>less_than\<close>: the field operations
    \<^verbatim>\<open>operator-\<close>, \<^verbatim>\<open>abs\<close>, \<^verbatim>\<open>max(f, allpe)\<close> and the comparison \<^verbatim>\<open><\<close> of two
    \<^verbatim>\<open>BoutReal\<close>; they are declared elsewhere in the repository.
\<close>

record 'a env =
  CHECK :: nat
  mesh :: Mesh
  ierr :: "petsc_call \<Rightarrow> PetscErrorCode"
  junk :: "nat \<Rightarrow> 'a"
  solver :: "'a Vec \<Rightarrow> 'a Vec \<Rightarrow> 'a Vec list \<Rightarrow> 'a ksp_step"
  max_it :: nat
  T_of_ierr :: "PetscErrorCode \<Rightarrow> 'a GridField"
  field_minus :: "'a GridField \<Rightarrow> 'a GridField \<Rightarrow> 'a GridField"
  field_abs :: "'a GridField \<Rightarrow> 'a GridField"
  field_max :: "'a GridField \<Rightarrow> bool \<Rightarrow> 'a"
  less_than :: "'a \<Rightarrow> 'a \<Rightarrow> bool"

text \<open>Fresh memory for \<open>n\<close> scalars.\<close>

definition fresh :: "'a env \<Rightarrow> nat \<Rightarrow> 'a list" where
  "fresh env n = map (junk env) [0..<n]"

subsection \<open>Packing and unpacking\<close>

text \<open>
  The loop of \<^verbatim>\<open>fieldToPetscVec\<close>:
  \<^verbatim>\<open>for (const auto &i : in) { vecData[counter] = in[i]; counter++; }\<close>
  over the indices still to visit. Neither the read \<^verbatim>\<open>in[i]\<close> nor the write
  \<^verbatim>\<open>vecData[counter]\<close> is checked by the source.
\<close>

fun fieldToPetscVec_loop ::
  "'a GridField \<Rightarrow> nat list \<Rightarrow> nat \<Rightarrow> 'a list \<Rightarrow> error + 'a list" where
  "fieldToPetscVec_loop f_in [] counter vecData = Inr vecData"
| "fieldToPetscVec_loop f_in (i # rest) counter vecData =
     (case fdata f_in of
        None \<Rightarrow> Inl UndefinedBehaviour
      | Some d \<Rightarrow>
          if i < length d \<and> counter < length vecData
          then fieldToPetscVec_loop f_in rest (Suc counter) (vecData[counter := d ! i])
          else Inl UndefinedBehaviour)"

text \<open>
  \<^verbatim>\<open>fieldToPetscVec(in, out)\<close>. The result pairs how the call ended with the contents of
  the vector afterwards: \<open>Inl (PetscError e)\<close> is the early return of a \<^verbatim>\<open>CHKERRQ\<close>,
  \<open>Inr ()\<close> is running to the closing brace (the function has no \<^verbatim>\<open>return\<close>
  statement there, so the code it hands back is not determined).
\<close>

definition fieldToPetscVec ::
  "'a env \<Rightarrow> 'a GridField \<Rightarrow> 'a Vec \<Rightarrow> (error + unit) \<times> 'a Vec" where
  "fieldToPetscVec env f_in out =
     (if ierr env VecGetArray \<noteq> 0 then (Inl (PetscError (ierr env VecGetArray)), out)
      else case fieldToPetscVec_loop f_in (field_indices f_in) 0 out of
             Inl e \<Rightarrow> (Inl e, out)
           | Inr vecData \<Rightarrow>
               if ierr env VecRestoreArray \<noteq> 0
               then (Inl (PetscError (ierr env VecRestoreArray)), vecData)
               else (Inr (), vecData))"

text \<open>
  The loop of \<^verbatim>\<open>petscVecToField\<close>:
  \<^verbatim>\<open>for (const auto &i : out) { out[i] = vecData[counter]; counter++; }\<close>
  on the data of \<open>out\<close>.
\<close>

fun petscVecToField_loop ::
  "'a list \<Rightarrow> nat list \<Rightarrow> nat \<Rightarrow> 'a list option \<Rightarrow> error + 'a list option" where
  "petscVecToField_loop vecData [] counter d_out = Inr d_out"
| "petscVecToField_loop vecData (i # rest) counter d_out =
     (case d_out of
        None \<Rightarrow> Inl UndefinedBehaviour
      | Some d \<Rightarrow>
          if i < length d \<and> counter < length vecData
          then petscVecToField_loop vecData rest (Suc counter)
                 (Some (d[i := vecData ! counter]))
          else Inl UndefinedBehaviour)"

text \<open>\<^verbatim>\<open>petscVecToField(in, out)\<close>: how the call ended, and the field \<open>out\<close> afterwards.\<close>

definition petscVecToField ::
  "'a env \<Rightarrow> 'a Vec \<Rightarrow> 'a GridField \<Rightarrow> (error + unit) \<times> 'a GridField" where
  "petscVecToField env v_in out =
     (if ierr env VecGetArrayRead \<noteq> 0
      then (Inl (PetscError (ierr env VecGetArrayRead)), out)
      else case petscVecToField_loop v_in (field_indices out) 0 (fdata out) of
             Inl e \<Rightarrow> (Inl e, out)
           | Inr d \<Rightarrow>
               if ierr env VecRestoreArrayRead \<noteq> 0
               then (Inl (PetscError (ierr env VecRestoreArrayRead)), out\<lparr>fdata := d\<rparr>)
               else (Inr (), out\<lparr>fdata := d\<rparr>))"

subsection \<open>PETSc objects\<close>

text \<open>
  PETSc is an external library. Its objects are modelled by what the calls of this file
  leave in them: a shell matrix keeps the context pointer given to
  \<^verbatim>\<open>MatCreateShell\<close>, its local sizes and the operations registered with
  \<^verbatim>\<open>MatShellSetOperation\<close>; a \<^verbatim>\<open>KSP\<close> keeps its operators, its options prefix, whether
  \<^verbatim>\<open>KSPSetFromOptions\<close> and \<^verbatim>\<open>KSPSetUp\<close> were run, and the convergence reason of the last
  solve. An address stands for a pointer to an \<^verbatim>\<open>InvertableOperator\<close> object.
\<close>

type_synonym addr = nat

datatype MatOperation = MATOP_MULT | MATOP_MULT_ADD | MATOP_MULT_TRANSPOSE | MATOP_GET_DIAGONAL

text \<open>The one function of this file whose address is handed to PETSc.\<close>

datatype shell_function = FunctionWrapper

record Mat =
  mat_ctx :: addr
  mat_local_rows :: nat
  mat_local_cols :: nat
  mat_ops :: "(MatOperation \<times> shell_function) list"

record KSP =
  ksp_operators :: "(Mat \<times> Mat) option"
  ksp_options_prefix :: string
  ksp_from_options :: bool
  ksp_is_set_up :: bool
  ksp_reason :: int

text \<open>The code with which PETSc refuses an operation that a matrix does not provide.\<close>

definition PETSC_ERR_SUP :: PetscErrorCode where
  "PETSC_ERR_SUP = 56"

text \<open>
  The convergence reasons with which a \<^verbatim>\<open>KSP\<close> starts a solve (still iterating) and with
  which it stops at its iteration limit.
\<close>

definition KSP_CONVERGED_ITERATING :: int where
  "KSP_CONVERGED_ITERATING = 0"

definition KSP_DIVERGED_ITS :: int where
  "KSP_DIVERGED_ITS = -3"

subsection \<open>The class \<^verbatim>\<open>InvertableOperator<T>\<close>\<close>

text \<open>
  The data members. A PETSc handle that no call has filled yet is \<open>None\<close>. The member
  \<^verbatim>\<open>PetscLib lib\<close> only keeps the library initialised and is left out.
\<close>

record 'a InvertableOperator =
  operatorFunction :: "'a GridField \<Rightarrow> 'a GridField"
  matOperator :: "Mat option"
  rhs :: "'a Vec option"
  lhs :: "'a Vec option"
  ksp :: "KSP option"
  opt :: Options
  localmesh :: Mesh
  doneSetup :: bool

text \<open>
  The store: the session objects by address, and the number of field allocations made
  so far (the effect of \<^verbatim>\<open>allocate()\<close> that is not visible in a field's value).
\<close>

record 'a world =
  objs :: "addr \<Rightarrow> 'a InvertableOperator option"
  allocations :: nat

definition put :: "addr \<Rightarrow> 'a InvertableOperator \<Rightarrow> 'a world \<Rightarrow> 'a world" where
  "put this s w = w\<lparr>objs := (objs w)(this \<mapsto> s)\<rparr>"

text \<open>
  Modelled from the spec: \<^verbatim>\<open>allocate()\<close> of the field classes is missing from the
  sources; the specification lists field allocation as the capability the grid supplies.
  A field without data gets memory for every index of its mesh, not yet written; a field
  that has data keeps it.
\<close>

definition allocate :: "'a env \<Rightarrow> 'a GridField \<Rightarrow> 'a world \<Rightarrow> 'a GridField \<times> 'a world" where
  "allocate env f w =
     (case fdata f of
        None \<Rightarrow> (f\<lparr>fdata := Some (fresh env (LocalSize (getMesh f)))\<rparr>,
                 w\<lparr>allocations := Suc (allocations w)\<rparr>)
      | Some d \<Rightarrow> (f, w))"

text \<open>\<^verbatim>\<open>template <typename T> T identity(const T &in) { return in; }\<close>\<close>

definition identity :: "'a GridField \<Rightarrow> 'a GridField" where
  "identity f_in = f_in"

text \<open>
  The constructor. An argument left at its default (\<^verbatim>\<open>identity<T>\<close>, \<^verbatim>\<open>nullptr\<close>,
  \<^verbatim>\<open>nullptr\<close>) is \<open>None\<close>.
\<close>

definition InvertableOperator_ctor ::
  "'a env \<Rightarrow> ('a GridField \<Rightarrow> 'a GridField) option \<Rightarrow> Options option \<Rightarrow> Mesh option
   \<Rightarrow> 'a InvertableOperator" where
  "InvertableOperator_ctor env func opt_arg localmesh_arg =
     \<lparr>operatorFunction = (case func of None \<Rightarrow> identity | Some f \<Rightarrow> f),
      matOperator = None, rhs = None, lhs = None, ksp = None,
      opt = (case opt_arg of Some p \<Rightarrow> p | None \<Rightarrow> Section Root ''invertableOperator''),
      localmesh = (case localmesh_arg of Some m \<Rightarrow> m | None \<Rightarrow> mesh env),
      doneSetup = False\<rparr>"

text \<open>Constructing an object at the address \<open>this\<close>.\<close>

definition construct ::
  "'a env \<Rightarrow> addr \<Rightarrow> ('a GridField \<Rightarrow> 'a GridField) option \<Rightarrow> Options option \<Rightarrow> Mesh option
   \<Rightarrow> 'a world \<Rightarrow> 'a world" where
  "construct env this func opt_arg localmesh_arg w =
     put this (InvertableOperator_ctor env func opt_arg localmesh_arg) w"

text \<open>\<^verbatim>\<open>void setOperatorFunction(const function_signature& func)\<close>\<close>

definition setOperatorFunction ::
  "addr \<Rightarrow> ('a GridField \<Rightarrow> 'a GridField) \<Rightarrow> 'a world \<Rightarrow> (error + unit) \<times> 'a world" where
  "setOperatorFunction this func w =
     (case objs w this of
        None \<Rightarrow> (Inl UndefinedBehaviour, w)
      | Some s \<Rightarrow> (Inr (), put this (s\<lparr>operatorFunction := func\<rparr>) w))"

text \<open>\<^verbatim>\<open>T operator()(const T& input)\<close>\<close>

definition operator_call :: "addr \<Rightarrow> 'a world \<Rightarrow> 'a GridField \<Rightarrow> error + 'a GridField" where
  "operator_call this w input =
     (case objs w this of
        None \<Rightarrow> Inl UndefinedBehaviour
      | Some s \<Rightarrow> Inr (operatorFunction s input))"

text \<open>\<^verbatim>\<open>T apply(const T& input){ return operator()(input); }\<close>\<close>

definition apply_call :: "addr \<Rightarrow> 'a world \<Rightarrow> 'a GridField \<Rightarrow> error + 'a GridField" where
  "apply_call this w input = operator_call this w input"

text \<open>
  \<^verbatim>\<open>static PetscErrorCode functionWrapper(Mat m, Vec v1, Vec v2)\<close>. The context pointer
  comes from the matrix and is followed into the store as it is when the call runs. The
  code of \<^verbatim>\<open>MatShellGetContext\<close> is not tested by the source: when that call fails,
  \<open>ctx\<close> was never written. The codes that the two marshalling calls return are dropped
  by the source. The result is how the call ended with the contents of \<open>v2\<close> afterwards,
  and the store.
\<close>

definition functionWrapper ::
  "'a env \<Rightarrow> 'a world \<Rightarrow> Mat \<Rightarrow> 'a Vec \<Rightarrow> 'a Vec
   \<Rightarrow> ((error + PetscErrorCode) \<times> 'a Vec) \<times> 'a world" where
  "functionWrapper env w m v1 v2 =
     (if ierr env MatShellGetContext \<noteq> 0 then ((Inl UndefinedBehaviour, v2), w)
      else case objs w (mat_ctx m) of
        None \<Rightarrow> ((Inl UndefinedBehaviour, v2), w)
      | Some ctx \<Rightarrow>
          (case allocate env (T_ctor (localmesh ctx)) w of
             (tmpField, w1) \<Rightarrow>
               (case petscVecToField env v1 tmpField of
                  (Inl UndefinedBehaviour, _) \<Rightarrow> ((Inl UndefinedBehaviour, v2), w1)
                | (_, tmpField1) \<Rightarrow>
                    (case operator_call (mat_ctx m) w1 tmpField1 of
                       Inl e \<Rightarrow> ((Inl e, v2), w1)
                     | Inr tmpField2 \<Rightarrow>
                         (case fieldToPetscVec env tmpField2 v2 of
                            (Inl UndefinedBehaviour, _) \<Rightarrow> ((Inl UndefinedBehaviour, v2), w1)
                          | (_, v2') \<Rightarrow> ((Inr (ierr env MatShellGetContext), v2'), w1))))))"

text \<open>
  What PETSc does when the solver multiplies by the matrix: it calls the function
  registered for \<^verbatim>\<open>MATOP_MULT\<close>.
\<close>

definition MatMult ::
  "'a env \<Rightarrow> 'a world \<Rightarrow> Mat \<Rightarrow> 'a Vec \<Rightarrow> 'a Vec
   \<Rightarrow> ((error + PetscErrorCode) \<times> 'a Vec) \<times> 'a world" where
  "MatMult env w m v1 v2 =
     (case map_of (mat_ops m) MATOP_MULT of
        None \<Rightarrow> ((Inr PETSC_ERR_SUP, v2), w)
      | Some FunctionWrapper \<Rightarrow> functionWrapper env w m v1 v2)"

text \<open>
  The loop of \<^verbatim>\<open>setup\<close> that counts the indices of a field:
  \<^verbatim>\<open>for (const auto &i : tmp) { nlocal++; }\<close>
\<close>

fun count_loop :: "nat list \<Rightarrow> nat \<Rightarrow> nat" where
  "count_loop [] nlocal = nlocal"
| "count_loop (i # rest) nlocal = count_loop rest (Suc nlocal)"

text \<open>
  \<^verbatim>\<open>PetscErrorCode setup()\<close>. \<open>Inl (PetscError e)\<close> is the early return of a \<^verbatim>\<open>CHKERRQ\<close>
  with the code \<open>e\<close>. After \<^verbatim>\<open>doneSetup = true\<close> the function reaches its closing brace
  without a \<^verbatim>\<open>return\<close> statement: for a function that returns a \<^verbatim>\<open>PetscErrorCode\<close>
  this has no meaning in C++, so the call that passes all its PETSc calls ends as
  \<open>UndefinedBehaviour\<close>; the store given with it is what the statements before the
  closing brace have written. No path of this function returns normally. A PETSc call
  that fails leaves the handle it was to fill as it was.
\<close>

definition setup_call :: "'a env \<Rightarrow> addr \<Rightarrow> 'a world \<Rightarrow> (error + unit) \<times> 'a world" where
  "setup_call env this w =
     (case objs w this of
        None \<Rightarrow> (Inl UndefinedBehaviour, w)
      | Some s \<Rightarrow>
        if doneSetup s
        then (Inl (BoutException
                ''Trying to call setup on an InvertableOperator instance that has already been setup.''
                []), w)
        else
          let nlocal = count_loop (field_indices (T_ctor (localmesh s) :: 'a GridField)) 0 in
          if ierr env MatCreateShell \<noteq> 0 then (Inl (PetscError (ierr env MatCreateShell)), w)
          else
          let m0 = \<lparr>mat_ctx = this, mat_local_rows = nlocal, mat_local_cols = nlocal,
                    mat_ops = []\<rparr>;
              s1 = s\<lparr>matOperator := Some m0\<rparr> in
          if ierr env MatCreateVecs \<noteq> 0
          then (Inl (PetscError (ierr env MatCreateVecs)), put this s1 w)
          else
          let s2 = s1\<lparr>rhs := Some (fresh env (mat_local_cols m0)),
                      lhs := Some (fresh env (mat_local_rows m0))\<rparr> in
          if ierr env MatShellSetOperation \<noteq> 0
          then (Inl (PetscError (ierr env MatShellSetOperation)), put this s2 w)
          else
          let m1 = m0\<lparr>mat_ops := AList.update MATOP_MULT FunctionWrapper (mat_ops m0)\<rparr>;
              s3 = s2\<lparr>matOperator := Some m1\<rparr> in
          if ierr env KSPCreate \<noteq> 0
          then (Inl (PetscError (ierr env KSPCreate)), put this s3 w)
          else
          let k0 = \<lparr>ksp_operators = None, ksp_options_prefix = [], ksp_from_options = False,
                    ksp_is_set_up = False, ksp_reason = 0\<rparr>;
              s4 = s3\<lparr>ksp := Some k0\<rparr> in
          if ierr env KSPSetOperators \<noteq> 0
          then (Inl (PetscError (ierr env KSPSetOperators)), put this s4 w)
          else
          let k1 = k0\<lparr>ksp_operators := Some (m1, m1)\<rparr>;
              s5 = s4\<lparr>ksp := Some k1\<rparr> in
          if ierr env KSPSetOptionsPrefix \<noteq> 0
          then (Inl (PetscError (ierr env KSPSetOptionsPrefix)), put this s5 w)
          else
          let k2 = k1\<lparr>ksp_options_prefix := ''invert_''\<rparr>;
              s6 = s5\<lparr>ksp := Some k2\<rparr> in
          if ierr env KSPSetFromOptions \<noteq> 0
          then (Inl (PetscError (ierr env KSPSetFromOptions)), put this s6 w)
          else
          let k3 = k2\<lparr>ksp_from_options := True\<rparr>;
              s7 = s6\<lparr>ksp := Some k3\<rparr> in
          if ierr env KSPSetUp \<noteq> 0
          then (Inl (PetscError (ierr env KSPSetUp)), put this s7 w)
          else
          let k4 = k3\<lparr>ksp_is_set_up := True\<rparr>;
              s8 = s7\<lparr>ksp := Some k4\<rparr> in
          (Inl UndefinedBehaviour, put this (s8\<lparr>doneSetup := True\<rparr>) w))"

text \<open>The PETSc calls of \<^verbatim>\<open>setup\<close>, in the order of the source.\<close>

definition setup_steps :: "petsc_call list" where
  "setup_steps = [MatCreateShell, MatCreateVecs, MatShellSetOperation, KSPCreate,
                  KSPSetOperators, KSPSetOptionsPrefix, KSPSetFromOptions, KSPSetUp]"

text \<open>
  \<^verbatim>\<open>KSPSolve(ksp, rhs, lhs)\<close>, as far as this file can see it. The solver calls the
  multiplication of its matrix, one trial vector after the other, each call running in
  the store that the call before it left; the product goes into a work vector of the
  solver. A multiplication without meaning leaves the whole solve without meaning; one
  that returns an error code ends the solve with that code, the reason still at
  \<open>KSP_CONVERGED_ITERATING\<close>. At the iteration limit the solve stops with
  \<open>KSP_DIVERGED_ITS\<close>. Otherwise \<^verbatim>\<open>KSPSolve\<close> returns the code that PETSc gives it in
  this run. The result is that code, the reason left in the \<^verbatim>\<open>KSP\<close> and the contents of
  the solution vector (whose length does not change), with the store.
\<close>

fun ksp_iterate ::
  "'a env \<Rightarrow> Mat \<Rightarrow> 'a Vec \<Rightarrow> 'a Vec \<Rightarrow> nat \<Rightarrow> 'a Vec list \<Rightarrow> 'a world
   \<Rightarrow> (error + PetscErrorCode \<times> int \<times> 'a Vec) \<times> 'a world" where
  "ksp_iterate env m b x 0 ys w =
     (case solver env b x ys of
        Stop reason sol \<Rightarrow> (Inr (ierr env KSPSolve, reason, map sol [0..<length x]), w)
      | Multiply v1 it \<Rightarrow>
          (Inr (ierr env KSPSolve, KSP_DIVERGED_ITS, map it [0..<length x]), w))"
| "ksp_iterate env m b x (Suc k) ys w =
     (case solver env b x ys of
        Stop reason sol \<Rightarrow> (Inr (ierr env KSPSolve, reason, map sol [0..<length x]), w)
      | Multiply v1 it \<Rightarrow>
          (case MatMult env w m v1 (fresh env (length x)) of
             ((Inl e, y), w') \<Rightarrow> (Inl e, w')
           | ((Inr code, y), w') \<Rightarrow>
               if code \<noteq> 0
               then (Inr (code, KSP_CONVERGED_ITERATING, map it [0..<length x]), w')
               else ksp_iterate env m b x k (ys @ [y]) w'))"

definition KSPSolve_effect ::
  "'a env \<Rightarrow> 'a world \<Rightarrow> Mat \<Rightarrow> 'a Vec \<Rightarrow> 'a Vec
   \<Rightarrow> (error + PetscErrorCode \<times> int \<times> 'a Vec) \<times> 'a world" where
  "KSPSolve_effect env w m b x = ksp_iterate env m b x (max_it env) [] w"

text \<open>
  \<^verbatim>\<open>T invert(const T &rhsField)\<close>. \<^verbatim>\<open>ASSERT2\<close> is active from check level 2 on and throws
  when its condition fails (the macro is declared elsewhere in the repository; the text
  of its exception is not in the sources, and the model gives it the line of the
  assertion as its argument). The code
  that \<^verbatim>\<open>fieldToPetscVec\<close> and \<^verbatim>\<open>petscVecToField\<close> return is dropped by the source. The
  \<^verbatim>\<open>CHKERRQ\<close> after \<^verbatim>\<open>KSPSolve\<close> returns, from a function whose result type is \<^verbatim>\<open>T\<close>, the
  field made from the error code. The code of \<^verbatim>\<open>KSPGetConvergedReason\<close> is stored and
  never tested: when that call fails, the local \<^verbatim>\<open>reason\<close> was never written and the
  comparison that follows reads an uninitialised variable.
\<close>

definition invert ::
  "'a env \<Rightarrow> addr \<Rightarrow> 'a world \<Rightarrow> 'a GridField \<Rightarrow> (error + 'a GridField) \<times> 'a world" where
  "invert env this w rhsField =
     (case objs w this of
        None \<Rightarrow> (Inl UndefinedBehaviour, w)
      | Some s \<Rightarrow>
        if \<not> doneSetup s
        then (Inl (BoutException
                ''Trying to call invert on an InvertableOperator instance that has not been setup.''
                []), w)
        else if 2 \<le> CHECK env \<and> localmesh s \<noteq> getMesh rhsField
        then (Inl (BoutException ''Assertion failed in %s, line %d: %s'' [175]), w)
        else
          (case (rhs s, lhs s, ksp s) of
             (Some rhs0, Some lhs0, Some k) \<Rightarrow>
               (case ksp_operators k of
                  None \<Rightarrow> (Inl UndefinedBehaviour, w)
                | Some (amat, pmat) \<Rightarrow>
                  (case fieldToPetscVec env rhsField rhs0 of
                     (Inl UndefinedBehaviour, _) \<Rightarrow> (Inl UndefinedBehaviour, w)
                   | (_, rhs1) \<Rightarrow>
                     let w1 = put this (s\<lparr>rhs := Some rhs1\<rparr>) w in
                     (case KSPSolve_effect env w1 amat rhs1 lhs0 of
                        (Inl e, w1') \<Rightarrow> (Inl e, w1')
                      | (Inr (code, reason, lhs1), w1') \<Rightarrow>
                          let w2 = put this (s\<lparr>rhs := Some rhs1, lhs := Some lhs1,
                                                ksp := Some (k\<lparr>ksp_reason := reason\<rparr>)\<rparr>) w1'
                          in
                          if code \<noteq> 0
                          then (Inr (T_of_ierr env code), w2)
                          else if ierr env KSPGetConvergedReason \<noteq> 0
                          then (Inl UndefinedBehaviour, w2)
                          else if reason \<le> 0
                          then (Inl (BoutException ''KSPSolve failed with reason %d.'' [reason]),
                                w2)
                          else
                            (case allocate env (T_ctor (localmesh s)) w2 of
                               (lhsField, w3) \<Rightarrow>
                                 (case petscVecToField env lhs1 lhsField of
                                    (Inl UndefinedBehaviour, _) \<Rightarrow> (Inl UndefinedBehaviour, w3)
                                  | (_, lhsField1) \<Rightarrow> (Inr lhsField1, w3))))))
           | _ \<Rightarrow> (Inl UndefinedBehaviour, w)))"

text \<open>
  \<^verbatim>\<open>bool verify(const T &rhs, BoutReal tol = 1.0e-5)\<close>. The body is compiled only when
  \<^verbatim>\<open>CHECK > 1\<close>; otherwise the function returns \<^verbatim>\<open>true\<close>. The printing under
  \<^verbatim>\<open>CHECK > 3\<close> changes no result.
\<close>

definition verify ::
  "'a env \<Rightarrow> addr \<Rightarrow> 'a world \<Rightarrow> 'a GridField \<Rightarrow> 'a \<Rightarrow> (error + bool) \<times> 'a world" where
  "verify env this w rhsField tol =
     (if 1 < CHECK env
      then (case invert env this w rhsField of
              (Inl e, w1) \<Rightarrow> (Inl e, w1)
            | (Inr result, w1) \<Rightarrow>
                (case operator_call this w1 result of
                   Inl e \<Rightarrow> (Inl e, w1)
                 | Inr applied \<Rightarrow>
                     let maxDiff = field_max env (field_abs env (field_minus env applied rhsField))
                                     True
                     in (Inr (less_than env maxDiff tol), w1)))
      else (Inr True, w))"

text \<open>
  What \<^verbatim>\<open>KSPGetConvergedReason\<close> would report for the solver of a session: the reason
  left by its last solve.
\<close>

definition converged_reason :: "addr \<Rightarrow> 'a world \<Rightarrow> int option" where
  "converged_reason this w =
     (case objs w this of None \<Rightarrow> None | Some s \<Rightarrow> map_option ksp_reason (ksp s))"

subsection \<open>Sessions over time\<close>

text \<open>
  What a \<^verbatim>\<open>setup()\<close> that passed all its PETSc calls has written into the object when it
  reaches its closing brace, and what \<^verbatim>\<open>invert\<close> keeps: the flag, a shell matrix
  whose context is the object itself and whose only registered operation is the
  multiplication, two vectors of the local size, and a solver bound to that matrix.
\<close>

definition shell_matrix :: "addr \<Rightarrow> nat \<Rightarrow> Mat" where
  "shell_matrix this n =
     \<lparr>mat_ctx = this, mat_local_rows = n, mat_local_cols = n,
      mat_ops = [(MATOP_MULT, FunctionWrapper)]\<rparr>"

definition set_up :: "addr \<Rightarrow> 'a InvertableOperator \<Rightarrow> bool" where
  "set_up this s =
     (doneSetup s \<and>
      matOperator s = Some (shell_matrix this (LocalSize (localmesh s))) \<and>
      map_option length (rhs s) = Some (LocalSize (localmesh s)) \<and>
      map_option length (lhs s) = Some (LocalSize (localmesh s)) \<and>
      map_option ksp_operators (ksp s)
        = Some (Some (shell_matrix this (LocalSize (localmesh s)),
                      shell_matrix this (LocalSize (localmesh s)))))"

text \<open>
  A caller's use of the public interface: a sequence of member calls, each on some object
  and in some run of the external parts. A thrown exception or an error code ends the
  call and the caller goes on; an execution without meaning ends the sequence (so does a
  \<^verbatim>\<open>setup()\<close> that reaches its closing brace).
\<close>

datatype 'a call =
    Setup
  | Invert "'a GridField"
  | Verify "'a GridField" 'a
  | SetOperatorFunction "'a GridField \<Rightarrow> 'a GridField"
  | Apply "'a GridField"

fun is_Setup :: "'a call \<Rightarrow> bool" where
  "is_Setup Setup = True"
| "is_Setup c = False"

fun is_SetOperatorFunction :: "'a call \<Rightarrow> bool" where
  "is_SetOperatorFunction (SetOperatorFunction g) = True"
| "is_SetOperatorFunction c = False"

fun exec :: "'a env \<Rightarrow> addr \<Rightarrow> 'a call \<Rightarrow> 'a world \<Rightarrow> (error + unit) \<times> 'a world" where
  "exec env a Setup w = setup_call env a w"
| "exec env a (Invert b) w = (case invert env a w b of (r, w') \<Rightarrow> (map_sum id (\<lambda>x. ()) r, w'))"
| "exec env a (Verify b tol) w =
     (case verify env a w b tol of (r, w') \<Rightarrow> (map_sum id (\<lambda>x. ()) r, w'))"
| "exec env a (SetOperatorFunction g) w = setOperatorFunction a g w"
| "exec env a (Apply f) w = (map_sum id (\<lambda>x. ()) (apply_call a w f), w)"

fun run :: "'a world \<Rightarrow> ('a env \<times> addr \<times> 'a call) list \<Rightarrow> 'a world option" where
  "run w [] = Some w"
| "run w ((env, a, c) # cs) =
     (case exec env a c w of
        (Inl UndefinedBehaviour, w') \<Rightarrow> None
      | (r, w') \<Rightarrow> run w' cs)"

subsection \<open>A small run: four grid points, integer scalars\<close>

text \<open>
  Concrete values on which the theorems below are evaluated. The backend of this run
  solves diagonal systems exactly: it multiplies the right-hand side by the operator
  once, and divides; an operator that sends a component of the right-hand side to zero
  is a breakdown, which it reports with a negative reason.
\<close>

definition diag_solver :: "int Vec \<Rightarrow> int Vec \<Rightarrow> int Vec list \<Rightarrow> int ksp_step" where
  "diag_solver b x ys =
     (case ys of
        [] \<Rightarrow> Multiply b (\<lambda>i. x ! i)
      | y # rest \<Rightarrow>
          if list_all (\<lambda>v. v \<noteq> 0) y
          then Stop 2 (\<lambda>i. (b ! i * b ! i) div (y ! i))
          else Stop (-5) (\<lambda>i. x ! i))"

definition ex_mesh :: Mesh where
  "ex_mesh = Mesh 0 4"

definition ex_field :: "int list \<Rightarrow> int GridField" where
  "ex_field d = \<lparr>getMesh = ex_mesh, fdata = Some d\<rparr>"

definition ex_env :: "int env" where
  "ex_env =
     \<lparr>CHECK = 2, mesh = ex_mesh, ierr = (\<lambda>c. 0), junk = (\<lambda>i. 0), solver = diag_solver,
      max_it = 3,
      T_of_ierr = (\<lambda>e. ex_field [e, e, e, e]),
      field_minus = (\<lambda>f g. f\<lparr>fdata := (case (fdata f, fdata g) of
                                          (Some a, Some b) \<Rightarrow> Some (map2 (-) a b)
                                        | _ \<Rightarrow> None)\<rparr>),
      field_abs = (\<lambda>f. f\<lparr>fdata := map_option (map abs) (fdata f)\<rparr>),
      field_max = (\<lambda>f allpe. case fdata f of Some d \<Rightarrow> foldr max d 0 | None \<Rightarrow> 0),
      less_than = (<)\<rparr>"

text \<open>The same run, except that one PETSc call returns the code \<open>e\<close>.\<close>

definition ex_env_failing :: "petsc_call \<Rightarrow> PetscErrorCode \<Rightarrow> int env" where
  "ex_env_failing c e = ex_env\<lparr>ierr := (\<lambda>c'. if c' = c then e else 0)\<rparr>"

definition twice :: "int GridField \<Rightarrow> int GridField" where
  "twice f = f\<lparr>fdata := map_option (map (\<lambda>v. 2 * v)) (fdata f)\<rparr>"

definition thrice :: "int GridField \<Rightarrow> int GridField" where
  "thrice f = f\<lparr>fdata := map_option (map (\<lambda>v. 3 * v)) (fdata f)\<rparr>"

definition to_zero :: "int GridField \<Rightarrow> int GridField" where
  "to_zero f = f\<lparr>fdata := map_option (map (\<lambda>v. 0)) (fdata f)\<rparr>"

definition ex_empty :: "int world" where
  "ex_empty = \<lparr>objs = (\<lambda>a. None), allocations = 0\<rparr>"

text \<open>
  A session at address 1 around \<open>func\<close>: as constructed, and as a \<^verbatim>\<open>setup()\<close> that
  passed all its PETSc calls has written it.
\<close>

definition ex_new :: "(int GridField \<Rightarrow> int GridField) option \<Rightarrow> int world" where
  "ex_new func = construct ex_env 1 func None None ex_empty"

definition ex_ready :: "(int GridField \<Rightarrow> int GridField) option \<Rightarrow> int world" where
  "ex_ready func = snd (setup_call ex_env 1 (ex_new func))"

text \<open>The object that \<open>ex_ready (Some func)\<close> holds at address 1, written out.\<close>

definition ex_session :: "(int GridField \<Rightarrow> int GridField) \<Rightarrow> int InvertableOperator" where
  "ex_session func =
     \<lparr>operatorFunction = func, matOperator = Some (shell_matrix 1 4),
      rhs = Some [0, 0, 0, 0], lhs = Some [0, 0, 0, 0],
      ksp = Some \<lparr>ksp_operators = Some (shell_matrix 1 4, shell_matrix 1 4),
                  ksp_options_prefix = ''invert_'', ksp_from_options = True,
                  ksp_is_set_up = True, ksp_reason = 0\<rparr>,
      opt = Section Root ''invertableOperator'', localmesh = ex_mesh, doneSetup = True\<rparr>"

text \<open>A later moment of the session around \<open>twice\<close>, and the calls that lead there.\<close>

definition ex_calls :: "(int env \<times> addr \<times> int call) list" where
  "ex_calls = [(ex_env, 1, Invert (ex_field [2, 4, 6, 8])),
               (ex_env, 1, SetOperatorFunction thrice),
               (ex_env, 1, Apply (ex_field [1, 1, 1, 1]))]"

definition ex_later :: "int world" where
  "ex_later = snd (setOperatorFunction 1 thrice
                    (snd (invert ex_env 1 (ex_ready (Some twice)) (ex_field [2, 4, 6, 8]))))"

text \<open>The session around \<open>thrice\<close> after one solve.\<close>

definition ex_solved :: "int world" where
  "ex_solved = snd (invert ex_env 1 (ex_ready (Some thrice)) (ex_field [3, 6, 9, 12]))"

text \<open>A session that never saw \<^verbatim>\<open>setup()\<close>, after its function was replaced.\<close>

definition ex_rebound :: "int world" where
  "ex_rebound = snd (setOperatorFunction 1 thrice (ex_new None))"

lemmas ex_defs =
  ex_calls_def ex_later_def ex_solved_def ex_rebound_def ex_ready_def ex_new_def ex_empty_def
  ex_env_failing_def ex_env_def ex_field_def ex_mesh_def diag_solver_def twice_def thrice_def
  to_zero_def

lemmas model_defs =
  construct_def put_def InvertableOperator_ctor_def setup_call_def invert_def verify_def
  setOperatorFunction_def operator_call_def apply_call_def functionWrapper_def MatMult_def
  KSPSolve_effect_def KSP_DIVERGED_ITS_def KSP_CONVERGED_ITERATING_def numeral_3_eq_3
  setup_steps_def allocate_def fresh_def T_ctor_def field_indices_def
  allocated_def fieldToPetscVec_def petscVecToField_def identity_def upt_conv_Cons Let_def

section \<open>Properties\<close>

subsection \<open>The marshalling loops\<close>

lemma fieldToPetscVec_loop_upt:
  "fdata f = Some d \<Longrightarrow> n \<le> length d \<Longrightarrow> n \<le> length vec \<Longrightarrow> k \<le> n \<Longrightarrow>
   fieldToPetscVec_loop f [k..<n] k vec
     = Inr (take k vec @ take (n - k) (drop k d) @ drop n vec)"
proof (induction "n - k" arbitrary: k vec)
  case 0
  then show ?case by simp
next
  case (Suc m)
  then have kn: "k < n" by simp
  have step: "fieldToPetscVec_loop f [k..<n] k vec
              = fieldToPetscVec_loop f [Suc k..<n] (Suc k) (vec[k := d ! k])"
    using Suc.prems kn by (simp add: upt_conv_Cons)
  have ih: "fieldToPetscVec_loop f [Suc k..<n] (Suc k) (vec[k := d ! k])
            = Inr (take (Suc k) (vec[k := d ! k]) @ take (n - Suc k) (drop (Suc k) d)
                   @ drop n (vec[k := d ! k]))"
    using Suc.hyps(1)[of "Suc k" "vec[k := d ! k]"] Suc.hyps(2) Suc.prems kn by simp
  have a: "take (Suc k) (vec[k := d ! k]) = take k vec @ [d ! k]"
    using Suc.prems kn by (simp add: take_Suc_conv_app_nth)
  have b: "drop n (vec[k := d ! k]) = drop n vec"
    using kn by simp
  have c: "take (n - k) (drop k d) = d ! k # take (n - Suc k) (drop (Suc k) d)"
    using Suc.prems kn
    by (metis Cons_nth_drop_Suc Suc_diff_Suc less_le_trans take_Suc_Cons)
  show ?case using step ih a b c by simp
qed

lemma petscVecToField_loop_upt:
  "n \<le> length d \<Longrightarrow> n \<le> length vec \<Longrightarrow> k \<le> n \<Longrightarrow>
   petscVecToField_loop vec [k..<n] k (Some d)
     = Inr (Some (take k d @ take (n - k) (drop k vec) @ drop n d))"
proof (induction "n - k" arbitrary: k d)
  case 0
  then show ?case by simp
next
  case (Suc m)
  then have kn: "k < n" by simp
  have step: "petscVecToField_loop vec [k..<n] k (Some d)
              = petscVecToField_loop vec [Suc k..<n] (Suc k) (Some (d[k := vec ! k]))"
    using Suc.prems kn by (simp add: upt_conv_Cons)
  have ih: "petscVecToField_loop vec [Suc k..<n] (Suc k) (Some (d[k := vec ! k]))
            = Inr (Some (take (Suc k) (d[k := vec ! k]) @ take (n - Suc k) (drop (Suc k) vec)
                   @ drop n (d[k := vec ! k])))"
    using Suc.hyps(1)[of "Suc k" "d[k := vec ! k]"] Suc.hyps(2) Suc.prems kn by simp
  have a: "take (Suc k) (d[k := vec ! k]) = take k d @ [vec ! k]"
    using Suc.prems kn by (simp add: take_Suc_conv_app_nth)
  have b: "drop n (d[k := vec ! k]) = drop n d"
    using kn by simp
  have c: "take (n - k) (drop k vec) = vec ! k # take (n - Suc k) (drop (Suc k) vec)"
    using Suc.prems kn
    by (metis Cons_nth_drop_Suc Suc_diff_Suc less_le_trans take_Suc_Cons)
  show ?case using step ih a b c by simp
qed

text \<open>Running past the end of a buffer that is too short.\<close>

lemma fieldToPetscVec_loop_short:
  "fdata f = Some d \<Longrightarrow> k \<le> length vec \<Longrightarrow> length vec < n \<Longrightarrow>
   fieldToPetscVec_loop f [k..<n] k vec = Inl UndefinedBehaviour"
proof (induction "length vec - k" arbitrary: k vec)
  case 0
  then have "k = length vec" by simp
  with 0 show ?case by (simp add: upt_conv_Cons)
next
  case (Suc m)
  then have kn: "k < n" and kl: "k < length vec" by simp_all
  show ?case
  proof (cases "k < length d")
    case True
    have "fieldToPetscVec_loop f [k..<n] k vec
          = fieldToPetscVec_loop f [Suc k..<n] (Suc k) (vec[k := d ! k])"
      using Suc.prems kn kl True by (simp add: upt_conv_Cons)
    also have "\<dots> = Inl UndefinedBehaviour"
      using Suc.hyps(1)[of "vec[k := d ! k]" "Suc k"] Suc.hyps(2) Suc.prems kl by simp
    finally show ?thesis .
  next
    case False
    then show ?thesis using Suc.prems kn by (simp add: upt_conv_Cons)
  qed
qed

lemma petscVecToField_loop_short:
  "k \<le> length vec \<Longrightarrow> length vec < n \<Longrightarrow>
   petscVecToField_loop vec [k..<n] k (Some d) = Inl UndefinedBehaviour"
proof (induction "length vec - k" arbitrary: k d)
  case 0
  then have "k = length vec" by simp
  with 0 show ?case by (simp add: upt_conv_Cons)
next
  case (Suc m)
  then have kn: "k < n" and kl: "k < length vec" by simp_all
  show ?case
  proof (cases "k < length d")
    case True
    have "petscVecToField_loop vec [k..<n] k (Some d)
          = petscVecToField_loop vec [Suc k..<n] (Suc k) (Some (d[k := vec ! k]))"
      using Suc.prems kn kl True by (simp add: upt_conv_Cons)
    also have "\<dots> = Inl UndefinedBehaviour"
      using Suc.hyps(1)[of "Suc k" "d[k := vec ! k]"] Suc.hyps(2) Suc.prems kl by simp
    finally show ?thesis .
  next
    case False
    then show ?thesis using Suc.prems kn by (simp add: upt_conv_Cons)
  qed
qed

text \<open>The loops fail in one way only.\<close>

lemma fieldToPetscVec_loop_error:
  "fieldToPetscVec_loop f is k vec = Inl e \<Longrightarrow> e = UndefinedBehaviour"
  by (induction f "is" k vec rule: fieldToPetscVec_loop.induct)
     (auto split: option.splits if_splits)

lemma petscVecToField_loop_error:
  "petscVecToField_loop vec is k d = Inl e \<Longrightarrow> e = UndefinedBehaviour"
  by (induction vec "is" k d rule: petscVecToField_loop.induct)
     (auto split: option.splits if_splits)

lemma fieldToPetscVec_no_exception:
  "fst (fieldToPetscVec env f out) \<noteq> Inl (BoutException msg args)"
  by (auto simp: fieldToPetscVec_def split: sum.splits dest: fieldToPetscVec_loop_error)

lemma petscVecToField_no_exception:
  "fst (petscVecToField env v g) \<noteq> Inl (BoutException msg args)"
  by (auto simp: petscVecToField_def split: sum.splits dest: petscVecToField_loop_error)

lemma fieldToPetscVec_fits:
  assumes "ierr env VecGetArray = 0" and "ierr env VecRestoreArray = 0"
    and "fdata f = Some d" and "length d = LocalSize (getMesh f)"
    and "LocalSize (getMesh f) \<le> length out"
  shows "fieldToPetscVec env f out = (Inr (), d @ drop (length d) out)"
  using assms fieldToPetscVec_loop_upt[of f d "LocalSize (getMesh f)" out 0]
  by (simp add: fieldToPetscVec_def field_indices_def)

lemma petscVecToField_fits:
  assumes "ierr env VecGetArrayRead = 0" and "ierr env VecRestoreArrayRead = 0"
    and "fdata g = Some d" and "length d = LocalSize (getMesh g)"
    and "LocalSize (getMesh g) \<le> length v"
  shows "petscVecToField env v g = (Inr (), g\<lparr>fdata := Some (take (length d) v)\<rparr>)"
  using assms petscVecToField_loop_upt[of "LocalSize (getMesh g)" d v 0]
  by (simp add: petscVecToField_def field_indices_def)

lemma fieldToPetscVec_short:
  assumes "ierr env VecGetArray = 0" and "fdata f = Some d"
    and "length out < LocalSize (getMesh f)"
  shows "fieldToPetscVec env f out = (Inl UndefinedBehaviour, out)"
  using assms fieldToPetscVec_loop_short[of f d 0 out "LocalSize (getMesh f)"]
  by (simp add: fieldToPetscVec_def field_indices_def)

lemma petscVecToField_short:
  assumes "ierr env VecGetArrayRead = 0" and "fdata g = Some d"
    and "length v < LocalSize (getMesh g)"
  shows "petscVecToField env v g = (Inl UndefinedBehaviour, g)"
  using assms petscVecToField_loop_short[of 0 v "LocalSize (getMesh g)" d]
  by (simp add: petscVecToField_def field_indices_def)

text \<open>
  C1. Round trip: packing an allocated field \<open>f\<close> into a flat buffer of its local size
  and unpacking that buffer into an allocated field \<open>g\<close> of the same shape leaves in
  \<open>g\<close> exactly the data of \<open>f\<close>. The packed buffer is the list of the elements of \<open>f\<close> in
  iteration order, so neither copy reorders or changes a scalar.
\<close>

theorem pack_unpack_roundtrip:
  assumes "allocated f" and "fdata f = Some d" and "allocated g"
    and "LocalSize (getMesh g) = LocalSize (getMesh f)"
    and "length buf = LocalSize (getMesh f)"
    and "ierr env VecGetArray = 0" and "ierr env VecRestoreArray = 0"
    and "ierr env VecGetArrayRead = 0" and "ierr env VecRestoreArrayRead = 0"
  shows "fieldToPetscVec env f buf = (Inr (), d) \<and>
         petscVecToField env d g = (Inr (), g\<lparr>fdata := fdata f\<rparr>)"
proof -
  from assms(1,2) have len: "length d = LocalSize (getMesh f)"
    by (simp add: allocated_def)
  from assms(3) obtain d' where g: "fdata g = Some d'" "length d' = LocalSize (getMesh g)"
    by (auto simp: allocated_def split: option.splits)
  have "fieldToPetscVec env f buf = (Inr (), d @ drop (length d) buf)"
    using assms len by (intro fieldToPetscVec_fits) simp_all
  then have pack: "fieldToPetscVec env f buf = (Inr (), d)"
    using assms(5) len by simp
  have "petscVecToField env d g = (Inr (), g\<lparr>fdata := Some (take (length d') d)\<rparr>)"
    using assms g len by (intro petscVecToField_fits) simp_all
  then have "petscVecToField env d g = (Inr (), g\<lparr>fdata := fdata f\<rparr>)"
    using assms(2,4) g len by simp
  with pack show ?thesis by simp
qed

theorem pack_unpack_roundtrip_witness:
  "allocated (ex_field [2, 4, 6, 8]) \<and>
   fdata (ex_field [2, 4, 6, 8]) = Some [2, 4, 6, 8] \<and>
   allocated (fst (allocate ex_env (T_ctor ex_mesh) ex_empty)) \<and>
   fieldToPetscVec ex_env (ex_field [2, 4, 6, 8]) [0, 0, 0, 0] = (Inr (), [2, 4, 6, 8]) \<and>
   petscVecToField ex_env [2, 4, 6, 8] (fst (allocate ex_env (T_ctor ex_mesh) ex_empty))
     = (Inr (), ex_field [2, 4, 6, 8])"
proof -
  let ?f = "ex_field [2, 4, 6, 8]"
  let ?g = "fst (allocate ex_env (T_ctor ex_mesh) ex_empty)"
  have h1: "allocated ?f" and h2: "fdata ?f = Some [2, 4, 6, 8]"
    by (simp_all add: ex_defs allocated_def)
  have h3: "allocated ?g" and h4: "LocalSize (getMesh ?g) = LocalSize (getMesh ?f)"
    by (simp_all add: ex_defs model_defs)
  have h5: "length [0, 0, 0, 0 :: int] = LocalSize (getMesh ?f)"
    by (simp add: ex_defs)
  have e: "ierr ex_env VecGetArray = 0" "ierr ex_env VecRestoreArray = 0"
    "ierr ex_env VecGetArrayRead = 0" "ierr ex_env VecRestoreArrayRead = 0"
    by (simp_all add: ex_defs)
  have same: "?g\<lparr>fdata := fdata ?f\<rparr> = ?f"
    by (simp add: ex_defs model_defs)
  show ?thesis
    using pack_unpack_roundtrip[OF h1 h2 h3 h4 h5 e] h1 h2 h3 same by simp
qed

text \<open>
  C6, as the code has it. Neither function compares the length of the buffer with the
  local element count of the field, and neither ever throws, whatever it is given. For
  an allocated field, with the array of the vector obtained and given back without
  error, a buffer at least as long as the field is handled without any error: the first
  entries, as many as the field has elements, are written or read in order, and the
  entries beyond them are left alone.
\<close>

theorem marshalling_without_size_check:
  assumes "allocated f" and "fdata f = Some d" and "allocated g"
    and "LocalSize (getMesh f) \<le> length buf" and "LocalSize (getMesh g) \<le> length buf"
    and "ierr env VecGetArray = 0" and "ierr env VecRestoreArray = 0"
    and "ierr env VecGetArrayRead = 0" and "ierr env VecRestoreArrayRead = 0"
  shows "fst (fieldToPetscVec env' f' buf') \<noteq> Inl (BoutException msg args) \<and>
         fst (petscVecToField env' buf' g') \<noteq> Inl (BoutException msg args) \<and>
         fieldToPetscVec env f buf = (Inr (), d @ drop (LocalSize (getMesh f)) buf) \<and>
         petscVecToField env buf g
           = (Inr (), g\<lparr>fdata := Some (take (LocalSize (getMesh g)) buf)\<rparr>)"
proof -
  from assms(1,2) have len: "length d = LocalSize (getMesh f)"
    by (simp add: allocated_def)
  from assms(3) obtain d' where g: "fdata g = Some d'" "length d' = LocalSize (getMesh g)"
    by (auto simp: allocated_def split: option.splits)
  have pack: "fieldToPetscVec env f buf = (Inr (), d @ drop (LocalSize (getMesh f)) buf)"
    using assms len fieldToPetscVec_fits[of env f d buf] by simp
  have unpack: "petscVecToField env buf g
                = (Inr (), g\<lparr>fdata := Some (take (LocalSize (getMesh g)) buf)\<rparr>)"
    using assms g petscVecToField_fits[of env g d' buf] by simp
  show ?thesis
    using pack unpack fieldToPetscVec_no_exception petscVecToField_no_exception by blast
qed

theorem marshalling_without_size_check_witness:
  "allocated (ex_field [2, 4, 6, 8]) \<and> allocated (ex_field [0, 0, 0, 0]) \<and>
   length [1, 2, 3, 4, 5 :: int] \<noteq> LocalSize (getMesh (ex_field [2, 4, 6, 8])) \<and>
   fieldToPetscVec ex_env (ex_field [2, 4, 6, 8]) [1, 2, 3, 4, 5] = (Inr (), [2, 4, 6, 8, 5]) \<and>
   petscVecToField ex_env [1, 2, 3, 4, 5] (ex_field [0, 0, 0, 0])
     = (Inr (), ex_field [1, 2, 3, 4])"
proof -
  let ?f = "ex_field [2, 4, 6, 8]"
  let ?g = "ex_field [0, 0, 0, 0]"
  have h1: "allocated ?f" and h2: "fdata ?f = Some [2, 4, 6, 8]" and h3: "allocated ?g"
    by (simp_all add: ex_defs allocated_def)
  have l: "LocalSize (getMesh ?f) \<le> length [1, 2, 3, 4, 5 :: int]"
    "LocalSize (getMesh ?g) \<le> length [1, 2, 3, 4, 5 :: int]"
    by (simp_all add: ex_defs)
  have e: "ierr ex_env VecGetArray = 0" "ierr ex_env VecRestoreArray = 0"
    "ierr ex_env VecGetArrayRead = 0" "ierr ex_env VecRestoreArrayRead = 0"
    by (simp_all add: ex_defs)
  have n: "length [1, 2, 3, 4, 5 :: int] \<noteq> LocalSize (getMesh ?f)"
    "[2, 4, 6, 8] @ drop (LocalSize (getMesh ?f)) [1, 2, 3, 4, 5 :: int] = [2, 4, 6, 8, 5]"
    "?g\<lparr>fdata := Some (take (LocalSize (getMesh ?g)) [1, 2, 3, 4, 5])\<rparr> = ex_field [1, 2, 3, 4]"
    by (simp_all add: ex_defs)
  show ?thesis
    using marshalling_without_size_check[where env' = ex_env and f' = ?f and g' = ?g
            and buf' = "[]" and msg = "[]" and args = "[]", OF h1 h2 h3 l e] h1 h3 n
    by simp
qed

text \<open>
  C6 as stated fails: a buffer of five entries against a field of four elements is
  packed and unpacked without any error, and a buffer of three entries makes the
  packing loop write past its end.
\<close>

theorem size_mismatch_counterexample:
  "length [1, 2, 3, 4, 5 :: int] \<noteq> LocalSize (getMesh (ex_field [2, 4, 6, 8])) \<and>
   fieldToPetscVec ex_env (ex_field [2, 4, 6, 8]) [1, 2, 3, 4, 5] = (Inr (), [2, 4, 6, 8, 5]) \<and>
   fst (petscVecToField ex_env [1, 2, 3, 4, 5] (ex_field [0, 0, 0, 0])) = Inr () \<and>
   fst (fieldToPetscVec ex_env (ex_field [2, 4, 6, 8]) [1, 2, 3]) = Inl UndefinedBehaviour"
  by (simp add: ex_defs model_defs)

subsection \<open>The member functions, path by path\<close>

lemma count_loop_length: "count_loop xs n = n + length xs"
  by (induction xs arbitrary: n) simp_all

lemma nlocal_is_LocalSize:
  "count_loop (field_indices (T_ctor lm :: 'a GridField)) 0 = LocalSize lm"
  by (simp add: count_loop_length field_indices_def T_ctor_def)

lemma objs_put: "objs (put a s w) b = (if b = a then Some s else objs w b)"
  by (simp add: put_def)

lemma allocations_put: "allocations (put a s w) = allocations w"
  by (simp add: put_def)

lemma length_fresh: "length (fresh env n) = n"
  by (simp add: fresh_def)

text \<open>\<^verbatim>\<open>setup()\<close> on a session that is set up already, and on one that is not.\<close>

lemma setup_call_done:
  "objs w this = Some s \<Longrightarrow> doneSetup s \<Longrightarrow>
   setup_call env this w =
     (Inl (BoutException
        ''Trying to call setup on an InvertableOperator instance that has already been setup.''
        []), w)"
  by (simp add: setup_call_def)

lemma setup_call_outcome:
  assumes "objs w this = Some s" and "\<not> doneSetup s" and "setup_call env this w = (r, w')"
  shows "\<exists>s'. objs w' this = Some s' \<and> operatorFunction s' = operatorFunction s \<and>
           localmesh s' = localmesh s \<and> opt s' = opt s \<and>
           (doneSetup s' = (r = Inl UndefinedBehaviour)) \<and> (doneSetup s' = set_up this s') \<and>
           (r = Inl UndefinedBehaviour \<or> (\<exists>e. e \<noteq> 0 \<and> r = Inl (PetscError e))) \<and>
           allocations w' = allocations w \<and>
           (\<forall>a. a \<noteq> this \<longrightarrow> objs w' a = objs w a)"
  using assms
  by (auto simp: setup_call_def Let_def put_def set_up_def shell_matrix_def nlocal_is_LocalSize
                 length_fresh split: if_splits)

lemma setup_call_result:
  assumes "objs w this = Some s" and "\<not> doneSetup s"
  shows "fst (setup_call env this w) =
           (case find (\<lambda>c. ierr env c \<noteq> 0) setup_steps of
              None \<Rightarrow> Inl UndefinedBehaviour
            | Some c \<Rightarrow> Inl (PetscError (ierr env c)))"
  using assms by (simp add: setup_call_def setup_steps_def Let_def)

text \<open>The shell matrix is complete once the first three PETSc calls have passed.\<close>

lemma setup_call_matrix:
  assumes "objs w this = Some s" and "\<not> doneSetup s" and "setup_call env this w = (r, w')"
    and "ierr env MatCreateShell = 0" and "ierr env MatCreateVecs = 0"
    and "ierr env MatShellSetOperation = 0"
  shows "\<exists>s'. objs w' this = Some s' \<and>
           matOperator s' = Some (shell_matrix this (LocalSize (localmesh s)))"
  using assms
  by (auto simp: setup_call_def Let_def put_def shell_matrix_def nlocal_is_LocalSize
           split: if_splits)

text \<open>The handles that an early return leaves written.\<close>

lemma setup_call_handles:
  assumes "objs w this = Some s" and "\<not> doneSetup s" and "setup_call env this w = (r, w')"
  shows "\<exists>s'. objs w' this = Some s' \<and>
           (ierr env MatCreateShell = 0 \<longrightarrow> matOperator s' \<noteq> None) \<and>
           (ierr env MatCreateShell = 0 \<and> ierr env MatCreateVecs = 0
              \<longrightarrow> rhs s' \<noteq> None \<and> lhs s' \<noteq> None) \<and>
           (ierr env MatCreateShell = 0 \<and> ierr env MatCreateVecs = 0 \<and>
            ierr env MatShellSetOperation = 0 \<and> ierr env KSPCreate = 0
              \<longrightarrow> ksp s' \<noteq> None)"
  using assms
  by (auto simp: setup_call_def Let_def put_def split: if_splits)

lemma fieldToPetscVec_loop_length:
  "fieldToPetscVec_loop f is k vec = Inr v \<Longrightarrow> length v = length vec"
  by (induction f "is" k vec rule: fieldToPetscVec_loop.induct)
     (auto split: option.splits if_splits)

lemma length_fieldToPetscVec: "length (snd (fieldToPetscVec env f out)) = length out"
  by (auto simp: fieldToPetscVec_def split: sum.splits dest: fieldToPetscVec_loop_length)

lemma allocate_T_ctor:
  "allocate env (T_ctor lm) w =
     (\<lparr>getMesh = lm, fdata = Some (fresh env (LocalSize lm))\<rparr>,
      w\<lparr>allocations := Suc (allocations w)\<rparr>)"
  by (simp add: allocate_def T_ctor_def)

text \<open>The multiplication changes nothing in the store but the count of allocations.\<close>

lemma functionWrapper_objs: "objs (snd (functionWrapper env w m v1 v2)) = objs w"
  by (simp add: functionWrapper_def allocate_T_ctor
           split: option.splits prod.splits sum.splits error.splits)

lemma MatMult_objs: "objs (snd (MatMult env w m v1 v2)) = objs w"
  by (simp add: MatMult_def functionWrapper_objs split: option.splits shell_function.splits)

lemma MatMult_shell:
  "MatMult env w (shell_matrix this n) v1 v2 = functionWrapper env w (shell_matrix this n) v1 v2"
  by (simp add: MatMult_def shell_matrix_def)

lemma ksp_iterate_keeps:
  "ksp_iterate env m b x fuel ys w = (r, w') \<Longrightarrow>
   objs w' = objs w \<and> (\<forall>code reason x'. r = Inr (code, reason, x') \<longrightarrow> length x' = length x)"
proof (induction fuel arbitrary: ys w)
  case 0
  then show ?case by (auto split: ksp_step.splits)
next
  case (Suc k)
  show ?case
  proof (cases "solver env b x ys")
    case (Stop reason sol)
    then show ?thesis using Suc.prems by auto
  next
    case (Multiply v1 it)
    obtain mr y w1 where mm: "MatMult env w m v1 (fresh env (length x)) = ((mr, y), w1)"
      by (metis prod.collapse)
    have o1: "objs w1 = objs w" using MatMult_objs[of env w m v1 "fresh env (length x)"] mm by simp
    show ?thesis
    proof (cases mr)
      case (Inl e)
      then show ?thesis using Suc.prems Multiply mm o1 by auto
    next
      case (Inr code)
      show ?thesis
      proof (cases "code = 0")
        case True
        then have "ksp_iterate env m b x k (ys @ [y]) w1 = (r, w')"
          using Suc.prems Multiply mm Inr by simp
        from Suc.IH[OF this] o1 show ?thesis by simp
      next
        case False
        then show ?thesis using Suc.prems Multiply mm Inr o1 by auto
      qed
    qed
  qed
qed

lemma KSPSolve_effect_keeps:
  "KSPSolve_effect env w m b x = (r, w') \<Longrightarrow>
   objs w' = objs w \<and> (\<forall>code reason x'. r = Inr (code, reason, x') \<longrightarrow> length x' = length x)"
  unfolding KSPSolve_effect_def by (rule ksp_iterate_keeps)

lemma invert_not_set_up:
  "objs w this = Some s \<Longrightarrow> \<not> doneSetup s \<Longrightarrow>
   invert env this w b =
     (Inl (BoutException
        ''Trying to call invert on an InvertableOperator instance that has not been setup.''
        []), w)"
  by (simp add: invert_def)

lemma invert_assert:
  "objs w this = Some s \<Longrightarrow> doneSetup s \<Longrightarrow> 2 \<le> CHECK env \<Longrightarrow> localmesh s \<noteq> getMesh b \<Longrightarrow>
   invert env this w b =
     (Inl (BoutException ''Assertion failed in %s, line %d: %s'' [175]), w)"
  by (simp add: invert_def)

lemma invert_fault:
  assumes "objs w this = Some s" and "doneSetup s"
    and "\<not> (2 \<le> CHECK env \<and> localmesh s \<noteq> getMesh b)"
    and "rhs s = None \<or> lhs s = None \<or> ksp s = None
         \<or> (\<exists>k. ksp s = Some k \<and> ksp_operators k = None)
         \<or> (\<exists>rhs0. rhs s = Some rhs0 \<and> fst (fieldToPetscVec env b rhs0) = Inl UndefinedBehaviour)"
  shows "invert env this w b = (Inl UndefinedBehaviour, w)"
  using assms unfolding invert_def
  by (auto split: option.splits prod.splits sum.splits error.splits)

text \<open>\<^verbatim>\<open>invert\<close> once the solve is reached: a solve without meaning, and a solve that returns.\<close>

lemma invert_solve_fault:
  assumes "objs w this = Some s" and "doneSetup s"
    and "\<not> (2 \<le> CHECK env \<and> localmesh s \<noteq> getMesh b)"
    and "rhs s = Some rhs0" and "lhs s = Some lhs0" and "ksp s = Some k"
    and "ksp_operators k = Some (m, p)"
    and "fieldToPetscVec env b rhs0 = (pr, rhs1)" and "pr \<noteq> Inl UndefinedBehaviour"
    and "KSPSolve_effect env (put this (s\<lparr>rhs := Some rhs1\<rparr>) w) m rhs1 lhs0 = (Inl e, w1)"
  shows "invert env this w b = (Inl e, w1)"
proof -
  have pk: "(case fieldToPetscVec env b rhs0 of
               (Inl UndefinedBehaviour, x) \<Rightarrow> A | (_, x) \<Rightarrow> B x) = B rhs1" for A and B :: "'a list \<Rightarrow> 'c"
    using assms(8,9) by (cases pr; simp split: error.splits)
  have a3: "(2 \<le> CHECK env \<and> localmesh s \<noteq> getMesh b) = False"
    using assms(3) by simp
  show ?thesis
    unfolding invert_def
    using assms(1,2,4-7,10)
    by (simp add: a3 pk Let_def del: fun_upd_apply)
qed

lemma invert_solve:
  assumes "objs w this = Some s" and "doneSetup s"
    and "\<not> (2 \<le> CHECK env \<and> localmesh s \<noteq> getMesh b)"
    and "rhs s = Some rhs0" and "lhs s = Some lhs0" and "ksp s = Some k"
    and "ksp_operators k = Some (m, p)"
    and "fieldToPetscVec env b rhs0 = (pr, rhs1)" and "pr \<noteq> Inl UndefinedBehaviour"
    and "KSPSolve_effect env (put this (s\<lparr>rhs := Some rhs1\<rparr>) w) m rhs1 lhs0
         = (Inr (code, reason, lhs1), w1)"
    and "w2 = put this (s\<lparr>rhs := Some rhs1, lhs := Some lhs1,
                           ksp := Some (k\<lparr>ksp_reason := reason\<rparr>)\<rparr>) w1"
  shows "invert env this w b =
     (if code \<noteq> 0 then (Inr (T_of_ierr env code), w2)
      else if ierr env KSPGetConvergedReason \<noteq> 0 then (Inl UndefinedBehaviour, w2)
      else if reason \<le> 0
      then (Inl (BoutException ''KSPSolve failed with reason %d.'' [reason]), w2)
      else (case petscVecToField env lhs1
                   \<lparr>getMesh = localmesh s, fdata = Some (fresh env (LocalSize (localmesh s)))\<rparr> of
              (ur, lhsField1) \<Rightarrow>
                (if ur = Inl UndefinedBehaviour then Inl UndefinedBehaviour else Inr lhsField1,
                 w2\<lparr>allocations := Suc (allocations w2)\<rparr>)))"
proof -
  have pk: "(case fieldToPetscVec env b rhs0 of
               (Inl UndefinedBehaviour, x) \<Rightarrow> A | (_, x) \<Rightarrow> B x) = B rhs1" for A and B :: "'a list \<Rightarrow> 'c"
    using assms(8,9) by (cases pr; simp split: error.splits)
  have un: "(case petscVecToField env lhs1 g of
               (Inl UndefinedBehaviour, x) \<Rightarrow> (Inl UndefinedBehaviour, W)
             | (_, x) \<Rightarrow> (Inr x, W))
            = (case petscVecToField env lhs1 g of
                (ur, x) \<Rightarrow> (if ur = Inl UndefinedBehaviour then Inl UndefinedBehaviour else Inr x, W))"
    for g :: "'a GridField" and W :: "'a world"
    by (auto split: prod.splits sum.splits error.splits)
  have a3: "(2 \<le> CHECK env \<and> localmesh s \<noteq> getMesh b) = False"
    using assms(3) by simp
  show ?thesis
    unfolding invert_def
    using assms(1,2,4-7,10,11)
    by (simp add: a3 pk un Let_def allocate_T_ctor del: fun_upd_apply)
qed

lemma invert_outcome:
  assumes "objs w this = Some s" and "invert env this w b = (r, w')"
  shows "\<exists>s'. objs w' this = Some s' \<and> operatorFunction s' = operatorFunction s \<and>
           localmesh s' = localmesh s \<and> opt s' = opt s \<and> doneSetup s' = doneSetup s \<and>
           matOperator s' = matOperator s \<and> set_up this s' = set_up this s \<and>
           (\<forall>a. a \<noteq> this \<longrightarrow> objs w' a = objs w a)"
proof -
  consider (unset) "\<not> doneSetup s"
    | (assert) "doneSetup s" "2 \<le> CHECK env" "localmesh s \<noteq> getMesh b"
    | (fault) "doneSetup s" "\<not> (2 \<le> CHECK env \<and> localmesh s \<noteq> getMesh b)"
        "rhs s = None \<or> lhs s = None \<or> ksp s = None
         \<or> (\<exists>k. ksp s = Some k \<and> ksp_operators k = None)
         \<or> (\<exists>rhs0. rhs s = Some rhs0 \<and> fst (fieldToPetscVec env b rhs0) = Inl UndefinedBehaviour)"
    | (solve) rhs0 lhs0 k m p where "doneSetup s"
        "\<not> (2 \<le> CHECK env \<and> localmesh s \<noteq> getMesh b)"
        "rhs s = Some rhs0" "lhs s = Some lhs0" "ksp s = Some k" "ksp_operators k = Some (m, p)"
        "fst (fieldToPetscVec env b rhs0) \<noteq> Inl UndefinedBehaviour"
  proof (cases "doneSetup s \<and> \<not> (2 \<le> CHECK env \<and> localmesh s \<noteq> getMesh b)")
    case False
    then show ?thesis using unset assert by blast
  next
    case ok: True
    show ?thesis
    proof (cases "rhs s")
      case None
      then show ?thesis using fault ok by blast
    next
      case r: (Some rhs0)
      show ?thesis
      proof (cases "lhs s")
        case None
        then show ?thesis using fault ok by blast
      next
        case l: (Some lhs0)
        show ?thesis
        proof (cases "ksp s")
          case None
          then show ?thesis using fault ok by blast
        next
          case k: (Some k)
          show ?thesis
          proof (cases "ksp_operators k")
            case None
            then show ?thesis using fault ok k by blast
          next
            case (Some mp)
            then obtain m p where "ksp_operators k = Some (m, p)" by (cases mp) simp
            then show ?thesis
              using fault[OF conjunct1[OF ok] conjunct2[OF ok]]
                    solve[OF conjunct1[OF ok] conjunct2[OF ok] r l k, of m p] r
              by blast
          qed
        qed
      qed
    qed
  qed
  then show ?thesis
  proof cases
    case unset
    then show ?thesis using assms invert_not_set_up[of w this s env b] by simp
  next
    case assert
    then show ?thesis using assms invert_assert[of w this s env b] by simp
  next
    case fault
    then show ?thesis using assms invert_fault[of w this s env b] by simp
  next
    case solve
    obtain pr rhs1 where pk: "fieldToPetscVec env b rhs0 = (pr, rhs1)"
      by (cases "fieldToPetscVec env b rhs0")
    have l1: "length rhs1 = length rhs0" using length_fieldToPetscVec[of env b rhs0] pk by simp
    have pr: "pr \<noteq> Inl UndefinedBehaviour" using solve(7) pk by simp
    define s1 where "s1 = s\<lparr>rhs := Some rhs1\<rparr>"
    obtain kr w1 where ks: "KSPSolve_effect env (put this s1 w) m rhs1 lhs0 = (kr, w1)"
      by (cases "KSPSolve_effect env (put this s1 w) m rhs1 lhs0")
    have o1: "objs w1 = objs (put this s1 w)"
      using KSPSolve_effect_keeps[OF ks] by simp
    have s1: "operatorFunction s1 = operatorFunction s" "localmesh s1 = localmesh s"
      "opt s1 = opt s" "doneSetup s1 = doneSetup s" "matOperator s1 = matOperator s"
      by (simp_all add: s1_def)
    have su1: "set_up this s1 = set_up this s"
      using solve(3) l1 by (simp add: s1_def set_up_def)
    show ?thesis
    proof (cases kr)
      case (Inl e)
      have "w' = w1"
        using invert_solve_fault[OF assms(1) solve(1-6) pk pr, of e w1] ks Inl assms(2)
        by (simp add: s1_def)
      then show ?thesis using o1 s1 su1 by (simp add: put_def)
    next
      case (Inr res)
      obtain code reason lhs1 where res: "res = (code, reason, lhs1)" by (cases res)
      have l2: "length lhs1 = length lhs0"
        using KSPSolve_effect_keeps[OF ks] Inr res by simp
      define s2 where "s2 = s\<lparr>rhs := Some rhs1, lhs := Some lhs1,
                             ksp := Some (k\<lparr>ksp_reason := reason\<rparr>)\<rparr>"
      define w2 where "w2 = put this s2 w1"
      have s2: "operatorFunction s2 = operatorFunction s" "localmesh s2 = localmesh s"
        "opt s2 = opt s" "doneSetup s2 = doneSetup s" "matOperator s2 = matOperator s"
        by (simp_all add: s2_def)
      have su: "set_up this s2 = set_up this s"
        using solve(3-6) l1 l2 by (simp add: s2_def set_up_def)
      have w2: "objs w2 this = Some s2" "\<And>a. a \<noteq> this \<Longrightarrow> objs w2 a = objs w a"
        using o1 by (simp_all add: w2_def put_def)
      have ks': "KSPSolve_effect env (put this (s\<lparr>rhs := Some rhs1\<rparr>) w) m rhs1 lhs0
                 = (Inr (code, reason, lhs1), w1)"
        using ks Inr res by (simp add: s1_def)
      have "w' = w2 \<or> w' = w2\<lparr>allocations := Suc (allocations w2)\<rparr>"
        using invert_solve[OF assms(1) solve(1-6) pk pr ks', of w2] assms(2)
        by (auto simp: w2_def s2_def split: if_splits prod.splits)
      then have "objs w' = objs w2" by auto
      then show ?thesis using s2 su w2 by auto
    qed
  qed
qed

lemma verify_outcome:
  assumes "objs w this = Some s" and "verify env this w b tol = (r, w')"
  shows "\<exists>s'. objs w' this = Some s' \<and> operatorFunction s' = operatorFunction s \<and>
           localmesh s' = localmesh s \<and> opt s' = opt s \<and> doneSetup s' = doneSetup s \<and>
           matOperator s' = matOperator s \<and> set_up this s' = set_up this s \<and>
           (\<forall>a. a \<noteq> this \<longrightarrow> objs w' a = objs w a)"
proof (cases "1 < CHECK env")
  case False
  then show ?thesis using assms by (simp add: verify_def)
next
  case True
  obtain ri wi where iv: "invert env this w b = (ri, wi)"
    by (cases "invert env this w b")
  have "w' = wi"
    using assms(2) True iv
    by (auto simp: verify_def Let_def split: sum.splits)
  then show ?thesis using invert_outcome[OF assms(1) iv] by simp
qed

lemma functionWrapper_computes:
  assumes "objs w (mat_ctx m) = Some ctx"
    and "ierr env MatShellGetContext = 0"
    and "ierr env VecGetArray = 0" and "ierr env VecRestoreArray = 0"
    and "ierr env VecGetArrayRead = 0" and "ierr env VecRestoreArrayRead = 0"
    and "length v1 = LocalSize (localmesh ctx)"
    and "operatorFunction ctx \<lparr>getMesh = localmesh ctx, fdata = Some v1\<rparr> = applied"
    and "fdata applied = Some d" and "length d = LocalSize (getMesh applied)"
    and "length v2 = LocalSize (getMesh applied)"
  shows "functionWrapper env w m v1 v2
         = ((Inr 0, d), w\<lparr>allocations := Suc (allocations w)\<rparr>)"
proof -
  let ?tmp = "\<lparr>getMesh = localmesh ctx, fdata = Some (fresh env (LocalSize (localmesh ctx)))\<rparr>"
  have un: "petscVecToField env v1 ?tmp
            = (Inr (), \<lparr>getMesh = localmesh ctx, fdata = Some v1\<rparr>)"
    using petscVecToField_fits[of env ?tmp "fresh env (LocalSize (localmesh ctx))" v1] assms(5,6,7)
    by (simp add: length_fresh)
  have pk: "fieldToPetscVec env applied v2 = (Inr (), d)"
    using fieldToPetscVec_fits[of env applied d v2] assms(3,4,9,10,11) by simp
  show ?thesis
    using assms(1,2,8) un pk
    by (simp add: functionWrapper_def allocate_T_ctor operator_call_def)
qed

lemma set_up_fields:
  assumes "set_up this s"
  shows "\<exists>rhs0 lhs0 k. doneSetup s \<and>
           matOperator s = Some (shell_matrix this (LocalSize (localmesh s))) \<and>
           rhs s = Some rhs0 \<and> length rhs0 = LocalSize (localmesh s) \<and>
           lhs s = Some lhs0 \<and> length lhs0 = LocalSize (localmesh s) \<and>
           ksp s = Some k \<and>
           ksp_operators k = Some (shell_matrix this (LocalSize (localmesh s)),
                                   shell_matrix this (LocalSize (localmesh s)))"
  using assms by (auto simp: set_up_def)

subsection \<open>Sequences of calls\<close>

lemma invert_no_object: "objs w a = None \<Longrightarrow> invert env a w b = (Inl UndefinedBehaviour, w)"
  by (simp add: invert_def)

lemma verify_no_object:
  "objs w a = None \<Longrightarrow> verify env a w b tol = (r, w') \<Longrightarrow> w' = w"
  by (auto simp: verify_def invert_no_object split: if_splits)

lemma exec_other:
  assumes "exec env a c w = (r, w')" and "a \<noteq> this"
  shows "objs w' this = objs w this"
proof (cases "objs w a")
  case None
  then have "w' = w"
    using assms(1)
    by (cases c)
       (auto simp: setup_call_def invert_no_object setOperatorFunction_def
             split: prod.splits dest: verify_no_object)
  then show ?thesis by simp
next
  case (Some sa)
  show ?thesis
  proof (cases c)
    case Setup
    show ?thesis
    proof (cases "doneSetup sa")
      case True
      then show ?thesis using assms Setup Some setup_call_done[of w a sa env] by simp
    next
      case False
      then show ?thesis using assms Setup setup_call_outcome[OF Some False, of env r w'] by auto
    qed
  next
    case (Invert b)
    obtain ri where iv: "invert env a w b = (ri, w')"
      using assms(1) Invert by (auto split: prod.splits)
    show ?thesis using invert_outcome[OF Some iv] assms(2) by auto
  next
    case (Verify b tol)
    obtain ri where vf: "verify env a w b tol = (ri, w')"
      using assms(1) Verify by (auto split: prod.splits)
    show ?thesis using verify_outcome[OF Some vf] assms(2) by auto
  next
    case (SetOperatorFunction g)
    then show ?thesis
      using assms Some by (auto simp: setOperatorFunction_def put_def)
  next
    case (Apply f)
    then show ?thesis using assms by auto
  qed
qed

lemma exec_same:
  assumes "exec env this c w = (r, w')" and "objs w this = Some s"
  shows "\<exists>s'. objs w' this = Some s' \<and> (doneSetup s \<longrightarrow> doneSetup s') \<and>
           (\<not> is_Setup c \<longrightarrow> doneSetup s' = doneSetup s)"
proof (cases c)
  case Setup
  show ?thesis
  proof (cases "doneSetup s")
    case True
    then show ?thesis using assms Setup setup_call_done[of w this s env] by simp
  next
    case False
    then show ?thesis
      using assms Setup setup_call_outcome[OF assms(2) False, of env r w'] by auto
  qed
next
  case (Invert b)
  obtain ri where iv: "invert env this w b = (ri, w')"
    using assms(1) Invert by (auto split: prod.splits)
  show ?thesis using invert_outcome[OF assms(2) iv] by auto
next
  case (Verify b tol)
  obtain ri where vf: "verify env this w b tol = (ri, w')"
    using assms(1) Verify by (auto split: prod.splits)
  show ?thesis using verify_outcome[OF assms(2) vf] by auto
next
  case (SetOperatorFunction g)
  then show ?thesis using assms by (auto simp: setOperatorFunction_def put_def)
next
  case (Apply f)
  then show ?thesis using assms by auto
qed

lemma run_Cons_Some:
  assumes "run w ((env, a, c) # cs) = Some w''"
  shows "\<exists>r w'. exec env a c w = (r, w') \<and> run w' cs = Some w''"
  using assms
  by (cases "exec env a c w") (auto split: sum.splits error.splits)

lemma run_flag_stays:
  "run w cs = Some w' \<Longrightarrow> objs w this = Some s \<Longrightarrow> doneSetup s \<Longrightarrow>
   \<exists>s'. objs w' this = Some s' \<and> doneSetup s'"
proof (induction cs arbitrary: w s)
  case Nil
  then show ?case by simp
next
  case (Cons x cs)
  obtain env a c where x: "x = (env, a, c)" by (cases x)
  from Cons.prems(1) x obtain r w1 where
    ex: "exec env a c w = (r, w1)" and rest: "run w1 cs = Some w'"
    using run_Cons_Some by blast
  have "\<exists>s1. objs w1 this = Some s1 \<and> doneSetup s1"
  proof (cases "a = this")
    case True
    then show ?thesis using exec_same[of env this c w r w1 s] ex Cons.prems(2,3) by auto
  next
    case False
    then show ?thesis using exec_other[OF ex False] Cons.prems(2,3) by simp
  qed
  then show ?case using Cons.IH[OF rest] by blast
qed

lemma run_unset_stays:
  "run w cs = Some w' \<Longrightarrow> objs w this = Some s \<Longrightarrow> \<not> doneSetup s \<Longrightarrow>
   list_all (\<lambda>(env, a, c). \<not> (a = this \<and> is_Setup c)) cs \<Longrightarrow>
   \<exists>s'. objs w' this = Some s' \<and> \<not> doneSetup s'"
proof (induction cs arbitrary: w s)
  case Nil
  then show ?case by simp
next
  case (Cons x cs)
  obtain env a c where x: "x = (env, a, c)" by (cases x)
  from Cons.prems(1) x obtain r w1 where
    ex: "exec env a c w = (r, w1)" and rest: "run w1 cs = Some w'"
    using run_Cons_Some by blast
  have no: "\<not> (a = this \<and> is_Setup c)" and tl: "list_all (\<lambda>(env, a, c). \<not> (a = this \<and> is_Setup c)) cs"
    using Cons.prems(4) x by simp_all
  have "\<exists>s1. objs w1 this = Some s1 \<and> \<not> doneSetup s1"
  proof (cases "a = this")
    case True
    then show ?thesis using exec_same[of env this c w r w1 s] ex Cons.prems(2,3) no by auto
  next
    case False
    then show ?thesis using exec_other[OF ex False] Cons.prems(2,3) by simp
  qed
  then show ?case using Cons.IH[OF rest _ _ tl] by blast
qed

lemma exec_same_function:
  assumes "exec env this c w = (r, w')" and "objs w this = Some s"
    and "\<not> is_SetOperatorFunction c"
  shows "\<exists>s'. objs w' this = Some s' \<and> operatorFunction s' = operatorFunction s \<and>
           localmesh s' = localmesh s"
proof (cases c)
  case Setup
  show ?thesis
  proof (cases "doneSetup s")
    case True
    then show ?thesis using assms Setup setup_call_done[of w this s env] by simp
  next
    case False
    then show ?thesis
      using assms Setup setup_call_outcome[OF assms(2) False, of env r w'] by auto
  qed
next
  case (Invert b)
  obtain ri where iv: "invert env this w b = (ri, w')"
    using assms(1) Invert by (auto split: prod.splits)
  show ?thesis using invert_outcome[OF assms(2) iv] by auto
next
  case (Verify b tol)
  obtain ri where vf: "verify env this w b tol = (ri, w')"
    using assms(1) Verify by (auto split: prod.splits)
  show ?thesis using verify_outcome[OF assms(2) vf] by auto
next
  case (SetOperatorFunction g)
  then show ?thesis using assms(3) by simp
next
  case (Apply f)
  then show ?thesis using assms by auto
qed

lemma run_keeps_function:
  "run w cs = Some w' \<Longrightarrow> objs w this = Some s \<Longrightarrow>
   list_all (\<lambda>(e, a, c). \<not> (a = this \<and> is_SetOperatorFunction c)) cs \<Longrightarrow>
   \<exists>s'. objs w' this = Some s' \<and> operatorFunction s' = operatorFunction s \<and>
        localmesh s' = localmesh s"
proof (induction cs arbitrary: w s)
  case Nil
  then show ?case by simp
next
  case (Cons x cs)
  obtain env a c where x: "x = (env, a, c)" by (cases x)
  from Cons.prems(1) x obtain r w1 where
    ex: "exec env a c w = (r, w1)" and rest: "run w1 cs = Some w'"
    using run_Cons_Some by blast
  have no: "\<not> (a = this \<and> is_SetOperatorFunction c)"
    and tl: "list_all (\<lambda>(e, a, c). \<not> (a = this \<and> is_SetOperatorFunction c)) cs"
    using Cons.prems(3) x by simp_all
  have "\<exists>s1. objs w1 this = Some s1 \<and> operatorFunction s1 = operatorFunction s \<and>
          localmesh s1 = localmesh s"
  proof (cases "a = this")
    case True
    then show ?thesis using exec_same_function[of env this c w r w1 s] ex Cons.prems(2) no by auto
  next
    case False
    then show ?thesis using exec_other[OF ex False] Cons.prems(2) by simp
  qed
  then obtain s1 where s1: "objs w1 this = Some s1" "operatorFunction s1 = operatorFunction s"
    "localmesh s1 = localmesh s" by blast
  from Cons.IH[OF rest s1(1) tl] s1(2,3) show ?case by auto
qed

subsection \<open>The example session\<close>

lemma ex_ready_session: "objs (ex_ready (Some func)) 1 = Some (ex_session func)"
  by (simp add: ex_session_def shell_matrix_def ex_defs model_defs)

lemma ex_session_set_up: "set_up 1 (ex_session func)"
  by (simp add: ex_session_def set_up_def ex_mesh_def)

subsection \<open>The life cycle of a session\<close>

text \<open>
  C3. The flag \<^verbatim>\<open>doneSetup\<close> is what a first \<^verbatim>\<open>setup()\<close> that passed all its PETSc calls
  leaves set. On a session whose flag is set, every later \<^verbatim>\<open>setup()\<close> throws, whatever
  calls were made on it or on other sessions in between and whatever PETSc would
  answer, and it changes nothing: the store is the same afterwards, and the flag is
  still set. (Nothing is said here about what the first call hands back: it reaches its
  closing brace without a \<^verbatim>\<open>return\<close> statement.)
\<close>

theorem second_setup_fails:
  assumes "objs w1 this = Some s1" and "doneSetup s1" and "run w1 calls = Some w"
  shows "setup_call env this w =
           (Inl (BoutException
              ''Trying to call setup on an InvertableOperator instance that has already been setup.''
              []), w) \<and>
         (\<exists>s. objs w this = Some s \<and> doneSetup s)"
proof -
  from run_flag_stays[OF assms(3,1,2)] obtain s where s: "objs w this = Some s" "doneSetup s"
    by blast
  then show ?thesis using setup_call_done[OF s] by simp
qed

theorem second_setup_fails_witness:
  "objs (ex_ready (Some twice)) 1 = Some (ex_session twice) \<and> doneSetup (ex_session twice) \<and>
   run (ex_ready (Some twice)) ex_calls = Some ex_later \<and>
   setup_call ex_env 1 ex_later =
     (Inl (BoutException
        ''Trying to call setup on an InvertableOperator instance that has already been setup.''
        []), ex_later)"
proof -
  have h1: "doneSetup (ex_session twice)"
    by (simp add: ex_session_def)
  have h2: "run (ex_ready (Some twice)) ex_calls = Some ex_later"
    by (simp add: ex_calls_def ex_later_def ex_defs model_defs)
  show ?thesis
    using second_setup_fails[OF ex_ready_session h1 h2, of ex_env] ex_ready_session h1 h2
    by simp
qed

text \<open>
  C4. On a session that was constructed and then used in any way that does not include
  \<^verbatim>\<open>setup()\<close>, \<^verbatim>\<open>invert\<close> throws the exception of the missing setup for every field.
  The result does not depend on the external parts (no solve is attempted), and the
  store, with the PETSc handles in it, is left as it was.
\<close>

theorem invert_before_setup_fails:
  assumes "run (construct env0 this func o_arg m_arg w0) calls = Some w"
    and "list_all (\<lambda>(e, a, c). \<not> (a = this \<and> is_Setup c)) calls"
  shows "invert env this w b =
           (Inl (BoutException
              ''Trying to call invert on an InvertableOperator instance that has not been setup.''
              []), w)"
proof -
  let ?w = "construct env0 this func o_arg m_arg w0"
  have "objs ?w this = Some (InvertableOperator_ctor env0 func o_arg m_arg)"
    and "\<not> doneSetup (InvertableOperator_ctor env0 func o_arg m_arg)"
    by (simp_all add: construct_def put_def InvertableOperator_ctor_def)
  from run_unset_stays[OF assms(1) this assms(2)] obtain s where
    "objs w this = Some s" "\<not> doneSetup s" by blast
  then show ?thesis by (rule invert_not_set_up)
qed

theorem invert_before_setup_fails_witness:
  "run (construct ex_env 1 None None None ex_empty)
     [(ex_env, 1, SetOperatorFunction thrice), (ex_env, 1, Invert (ex_field [1, 1, 1, 1]))]
     = Some ex_rebound \<and>
   invert ex_env 1 ex_rebound (ex_field [2, 4, 6, 8]) =
     (Inl (BoutException
        ''Trying to call invert on an InvertableOperator instance that has not been setup.''
        []), ex_rebound)"
proof -
  let ?calls = "[(ex_env, 1, SetOperatorFunction thrice), (ex_env, 1, Invert (ex_field [1, 1, 1, 1]))]"
  have h1: "run (construct ex_env 1 None None None ex_empty) ?calls = Some ex_rebound"
    by (simp add: ex_rebound_def ex_defs model_defs)
  have h2: "list_all (\<lambda>(e, a, c). \<not> (a = 1 \<and> is_Setup c)) ?calls"
    by simp
  show ?thesis
    using invert_before_setup_fails[OF h1 h2, of ex_env "ex_field [2, 4, 6, 8]"] h1 by simp
qed

text \<open>
  C7. A session constructed without a function holds \<open>identity\<close>, and both
  \<^verbatim>\<open>operator()\<close> and \<^verbatim>\<open>apply\<close> return their argument unchanged.
\<close>

theorem default_operator_is_identity:
  "operatorFunction (InvertableOperator_ctor env None o_arg m_arg) = identity \<and>
   operator_call this (construct env this None o_arg m_arg w) f = Inr f \<and>
   apply_call this (construct env this None o_arg m_arg w) f = Inr f"
  by (simp add: construct_def put_def InvertableOperator_ctor_def operator_call_def
                apply_call_def identity_def)

text \<open>
  C10, as the code has it. On a session that is not set up, \<^verbatim>\<open>setup()\<close> sets the flag
  exactly when none of its eight PETSc calls fails, as its last statement. When a call
  fails, \<^verbatim>\<open>setup()\<close> leaves early with the code of that call and the session is still
  not set up: \<^verbatim>\<open>invert\<close> throws the exception of the missing setup, and a further
  \<^verbatim>\<open>setup()\<close> is not refused as a double setup. The flag, the bound function, the mesh
  and the options of the session, and the count of allocated fields, are as before; the
  PETSc handles that were filled before the failing call stay written: the matrix once
  \<^verbatim>\<open>MatCreateShell\<close> has passed, the two vectors once \<^verbatim>\<open>MatCreateVecs\<close> has passed as
  well, the registered multiplication once \<^verbatim>\<open>MatShellSetOperation\<close> has, and the solver
  once \<^verbatim>\<open>KSPCreate\<close> has.
\<close>

theorem failed_setup_leaves_session_not_set_up:
  assumes "objs w this = Some s" and "\<not> doneSetup s" and "setup_call env this w = (r, w')"
  shows "\<exists>s'. objs w' this = Some s' \<and>
           doneSetup s' = (find (\<lambda>c. ierr env c \<noteq> 0) setup_steps = None) \<and>
           operatorFunction s' = operatorFunction s \<and> localmesh s' = localmesh s \<and>
           opt s' = opt s \<and> allocations w' = allocations w \<and>
           (ierr env MatCreateShell = 0 \<longrightarrow> matOperator s' \<noteq> None) \<and>
           (ierr env MatCreateShell = 0 \<and> ierr env MatCreateVecs = 0
              \<longrightarrow> rhs s' \<noteq> None \<and> lhs s' \<noteq> None) \<and>
           (ierr env MatCreateShell = 0 \<and> ierr env MatCreateVecs = 0 \<and>
            ierr env MatShellSetOperation = 0
              \<longrightarrow> matOperator s' = Some (shell_matrix this (LocalSize (localmesh s)))) \<and>
           (ierr env MatCreateShell = 0 \<and> ierr env MatCreateVecs = 0 \<and>
            ierr env MatShellSetOperation = 0 \<and> ierr env KSPCreate = 0
              \<longrightarrow> ksp s' \<noteq> None) \<and>
           (case find (\<lambda>c. ierr env c \<noteq> 0) setup_steps of
              None \<Rightarrow> doneSetup s'
            | Some c \<Rightarrow>
                r = Inl (PetscError (ierr env c)) \<and> ierr env c \<noteq> 0 \<and> \<not> doneSetup s' \<and>
                invert env1 this w' b =
                  (Inl (BoutException
                     ''Trying to call invert on an InvertableOperator instance that has not been setup.''
                     []), w') \<and>
                fst (setup_call env2 this w') \<noteq>
                  Inl (BoutException
                     ''Trying to call setup on an InvertableOperator instance that has already been setup.''
                     []))"
proof -
  from setup_call_outcome[OF assms] obtain s' where
    s': "objs w' this = Some s'" "doneSetup s' = (r = Inl UndefinedBehaviour)"
        "operatorFunction s' = operatorFunction s" "localmesh s' = localmesh s"
        "opt s' = opt s" "allocations w' = allocations w"
    by blast
  have res: "r = (case find (\<lambda>c. ierr env c \<noteq> 0) setup_steps of
                    None \<Rightarrow> Inl UndefinedBehaviour
                  | Some c \<Rightarrow> Inl (PetscError (ierr env c)))"
    using setup_call_result[OF assms(1,2), of env] assms(3) by simp
  have mat: "ierr env MatCreateShell = 0 \<and> ierr env MatCreateVecs = 0 \<and>
             ierr env MatShellSetOperation = 0
             \<longrightarrow> matOperator s' = Some (shell_matrix this (LocalSize (localmesh s)))"
    using setup_call_matrix[OF assms] s'(1) by auto
  have handles:
    "ierr env MatCreateShell = 0 \<longrightarrow> matOperator s' \<noteq> None"
    "ierr env MatCreateShell = 0 \<and> ierr env MatCreateVecs = 0
       \<longrightarrow> rhs s' \<noteq> None \<and> lhs s' \<noteq> None"
    "ierr env MatCreateShell = 0 \<and> ierr env MatCreateVecs = 0 \<and>
     ierr env MatShellSetOperation = 0 \<and> ierr env KSPCreate = 0
       \<longrightarrow> ksp s' \<noteq> None"
    using setup_call_handles[OF assms] s'(1) by auto
  show ?thesis
  proof (cases "find (\<lambda>c. ierr env c \<noteq> 0) setup_steps")
    case None
    then show ?thesis using s' res mat handles by simp
  next
    case (Some c)
    then have c: "ierr env c \<noteq> 0" by (auto simp: find_Some_iff)
    have r: "r = Inl (PetscError (ierr env c))" using res Some by simp
    then have unset: "\<not> doneSetup s'" using s'(2) by simp
    have retry: "fst (setup_call env2 this w') \<noteq>
                  Inl (BoutException
                     ''Trying to call setup on an InvertableOperator instance that has already been setup.''
                     [])"
      using setup_call_result[OF s'(1) unset, of env2] by (simp split: option.splits)
    show ?thesis
      using s' Some c r unset retry mat handles invert_not_set_up[OF s'(1) unset, of env1 b]
      by simp
  qed
qed

theorem failed_setup_leaves_session_not_set_up_witness:
  "fst (setup_call (ex_env_failing KSPCreate 77) 1 (ex_new (Some twice))) = Inl (PetscError 77) \<and>
   map_option doneSetup
     (objs (snd (setup_call (ex_env_failing KSPCreate 77) 1 (ex_new (Some twice)))) 1)
     = Some False \<and>
   map_option matOperator
     (objs (snd (setup_call (ex_env_failing KSPCreate 77) 1 (ex_new (Some twice)))) 1)
     = Some (Some (shell_matrix 1 4)) \<and>
   invert ex_env 1 (snd (setup_call (ex_env_failing KSPCreate 77) 1 (ex_new (Some twice))))
     (ex_field [2, 4, 6, 8]) =
     (Inl (BoutException
        ''Trying to call invert on an InvertableOperator instance that has not been setup.''
        []), snd (setup_call (ex_env_failing KSPCreate 77) 1 (ex_new (Some twice)))) \<and>
   fst (setup_call (ex_env_failing KSPSetUp 77) 1
          (snd (setup_call (ex_env_failing KSPCreate 77) 1 (ex_new (Some twice)))))
     = Inl (PetscError 77)"
proof -
  let ?w = "ex_new (Some twice)"
  let ?env = "ex_env_failing KSPCreate 77"
  obtain s where h1: "objs ?w 1 = Some s" and h2: "\<not> doneSetup s"
    by (simp add: ex_defs model_defs)
  have r: "fst (setup_call ?env 1 ?w) = Inl (PetscError 77)"
    by (simp add: ex_defs model_defs)
  have h3: "setup_call ?env 1 ?w = (fst (setup_call ?env 1 ?w), snd (setup_call ?env 1 ?w))"
    by simp
  have fnd: "find (\<lambda>c. ierr ?env c \<noteq> 0) setup_steps = Some KSPCreate"
    by (simp add: ex_defs setup_steps_def)
  have again: "fst (setup_call (ex_env_failing KSPSetUp 77) 1 (snd (setup_call ?env 1 ?w)))
               = Inl (PetscError 77)"
    by (simp add: ex_defs model_defs)
  have st: "map_option doneSetup (objs (snd (setup_call ?env 1 ?w)) 1) = Some False"
    "map_option matOperator (objs (snd (setup_call ?env 1 ?w)) 1) = Some (Some (shell_matrix 1 4))"
    by (simp_all add: shell_matrix_def ex_defs model_defs)
  show ?thesis
    using failed_setup_leaves_session_not_set_up[OF h1 h2 h3, of ex_env "ex_field [2, 4, 6, 8]"
            "ex_env_failing KSPSetUp 77"] r fnd again st
    by auto
qed

text \<open>
  C10 as stated fails where it says that a failed \<^verbatim>\<open>setup()\<close> leaves the state unchanged:
  when \<^verbatim>\<open>KSPCreate\<close> fails, the matrix and the two vectors have been created already and
  stay in the session.
\<close>

theorem failed_setup_counterexample:
  "fst (setup_call (ex_env_failing KSPCreate 77) 1 (ex_new (Some twice))) = Inl (PetscError 77) \<and>
   map_option matOperator (objs (ex_new (Some twice)) 1) = Some None \<and>
   map_option rhs (objs (ex_new (Some twice)) 1) = Some None \<and>
   map_option matOperator
     (objs (snd (setup_call (ex_env_failing KSPCreate 77) 1 (ex_new (Some twice)))) 1)
     = Some (Some (shell_matrix 1 4)) \<and>
   map_option rhs
     (objs (snd (setup_call (ex_env_failing KSPCreate 77) 1 (ex_new (Some twice)))) 1)
     = Some (Some [0, 0, 0, 0])"
  by (simp add: shell_matrix_def ex_defs model_defs)

subsection \<open>Solving\<close>

text \<open>
  \<^verbatim>\<open>invert\<close> on a session that is set up, when the solve returns the code 0 and the reason
  can be read: an exception with the reason if the reason is not positive, and otherwise
  a new field that holds the entries of the solution vector.
\<close>

lemma invert_reads_reason:
  assumes "objs w this = Some s" and "set_up this s"
    and "lhs s = Some lhs0" and "ksp s = Some k"
    and "allocated b" and "fdata b = Some d" and "getMesh b = localmesh s"
    and "ierr env VecGetArray = 0" and "ierr env VecRestoreArray = 0"
    and "ierr env VecGetArrayRead = 0" and "ierr env VecRestoreArrayRead = 0"
    and "ierr env KSPGetConvergedReason = 0"
    and "KSPSolve_effect env (put this (s\<lparr>rhs := Some d\<rparr>) w)
           (shell_matrix this (LocalSize (localmesh s))) d lhs0 = (Inr (0, reason, x), w1)"
  shows "(let w2 = put this (s\<lparr>rhs := Some d, lhs := Some x,
                               ksp := Some (k\<lparr>ksp_reason := reason\<rparr>)\<rparr>) w1
          in invert env this w b =
               (if reason \<le> 0
                then (Inl (BoutException ''KSPSolve failed with reason %d.'' [reason]), w2)
                else (Inr \<lparr>getMesh = localmesh s, fdata = Some x\<rparr>,
                      w2\<lparr>allocations := Suc (allocations w1)\<rparr>)))"
proof -
  let ?n = "LocalSize (localmesh s)"
  let ?w2 = "put this (s\<lparr>rhs := Some d, lhs := Some x,
                          ksp := Some (k\<lparr>ksp_reason := reason\<rparr>)\<rparr>) w1"
  from set_up_fields[OF assms(2)] assms(3,4) obtain rhs0 where
    su: "doneSetup s" "rhs s = Some rhs0" "length rhs0 = ?n" "length lhs0 = ?n"
        "ksp_operators k = Some (shell_matrix this ?n, shell_matrix this ?n)"
    by auto
  have ld: "length d = ?n" using assms(5,6,7) by (simp add: allocated_def)
  have pk: "fieldToPetscVec env b rhs0 = (Inr (), d)"
    using fieldToPetscVec_fits[of env b d rhs0] assms(6-9) ld su(3) by simp
  have lx: "length x = ?n" using KSPSolve_effect_keeps[OF assms(13)] su(4) by simp
  have un: "petscVecToField env x \<lparr>getMesh = localmesh s, fdata = Some (fresh env ?n)\<rparr>
            = (Inr (), \<lparr>getMesh = localmesh s, fdata = Some x\<rparr>)"
    using petscVecToField_fits[of env "\<lparr>getMesh = localmesh s, fdata = Some (fresh env ?n)\<rparr>"
            "fresh env ?n" x] assms(10,11) lx
    by (simp add: length_fresh)
  have ok: "\<not> (2 \<le> CHECK env \<and> localmesh s \<noteq> getMesh b)" using assms(7) by simp
  have "invert env this w b =
               (if reason \<le> 0
                then (Inl (BoutException ''KSPSolve failed with reason %d.'' [reason]), ?w2)
                else (Inr \<lparr>getMesh = localmesh s, fdata = Some x\<rparr>,
                      ?w2\<lparr>allocations := Suc (allocations w1)\<rparr>))"
    using invert_solve[OF assms(1) su(1) ok su(2) assms(3,4) su(5) pk _ assms(13), of ?w2]
          assms(12) un
    by (simp add: allocations_put)
  then show ?thesis by (simp add: Let_def)
qed

text \<open>
  C2. A failed solve must end \<^verbatim>\<open>invert\<close> with the exception that carries the reason, and
  never with a field. The code does so only when \<^verbatim>\<open>KSPSolve\<close> itself returns the code 0.
  On a session that is set up, whenever \<^verbatim>\<open>KSPSolve\<close> returns a code other than 0, the
  \<^verbatim>\<open>CHKERRQ\<close> behind it returns from \<^verbatim>\<open>invert\<close>: no exception is thrown, the reason is
  never read, no output field is allocated, and the caller receives the field made from
  the error code, whatever the reason of the solver is (and so also when it is not
  positive).
\<close>

theorem invert_returns_field_on_solve_error:
  assumes "objs w this = Some s" and "set_up this s"
    and "lhs s = Some lhs0" and "ksp s = Some k"
    and "allocated b" and "fdata b = Some d" and "getMesh b = localmesh s"
    and "ierr env VecGetArray = 0" and "ierr env VecRestoreArray = 0"
    and "KSPSolve_effect env (put this (s\<lparr>rhs := Some d\<rparr>) w)
           (shell_matrix this (LocalSize (localmesh s))) d lhs0 = (Inr (code, reason, x), w1)"
    and "code \<noteq> 0"
  shows "invert env this w b =
           (Inr (T_of_ierr env code),
            put this (s\<lparr>rhs := Some d, lhs := Some x,
                        ksp := Some (k\<lparr>ksp_reason := reason\<rparr>)\<rparr>) w1)"
proof -
  let ?n = "LocalSize (localmesh s)"
  let ?w2 = "put this (s\<lparr>rhs := Some d, lhs := Some x,
                          ksp := Some (k\<lparr>ksp_reason := reason\<rparr>)\<rparr>) w1"
  from set_up_fields[OF assms(2)] assms(3,4) obtain rhs0 where
    su: "doneSetup s" "rhs s = Some rhs0" "length rhs0 = ?n" "length lhs0 = ?n"
        "ksp_operators k = Some (shell_matrix this ?n, shell_matrix this ?n)"
    by auto
  have ld: "length d = ?n" using assms(5,6,7) by (simp add: allocated_def)
  have pk: "fieldToPetscVec env b rhs0 = (Inr (), d)"
    using fieldToPetscVec_fits[of env b d rhs0] assms(6-9) ld su(3) by simp
  have ok: "\<not> (2 \<le> CHECK env \<and> localmesh s \<noteq> getMesh b)" using assms(7) by simp
  show ?thesis
    using invert_solve[OF assms(1) su(1) ok su(2) assms(3,4) su(5) pk _ assms(10), of ?w2]
          assms(11)
    by simp
qed

theorem invert_returns_field_on_solve_error_witness:
  "fst (invert ex_env 1 (ex_ready (Some to_zero)) (ex_field [2, 4, 6, 8]))
     = Inl (BoutException ''KSPSolve failed with reason %d.'' [-5]) \<and>
   ierr (ex_env_failing KSPSolve 91) KSPSolve = 91 \<and>
   converged_reason 1
     (snd (invert (ex_env_failing KSPSolve 91) 1 (ex_ready (Some to_zero))
             (ex_field [2, 4, 6, 8]))) = Some (-5) \<and>
   fst (invert (ex_env_failing KSPSolve 91) 1 (ex_ready (Some to_zero)) (ex_field [2, 4, 6, 8]))
     = Inr (ex_field [91, 91, 91, 91])"
proof -
  let ?env = "ex_env_failing KSPSolve 91"
  let ?s = "ex_session to_zero"
  let ?b = "ex_field [2, 4, 6, 8]"
  let ?solve = "KSPSolve_effect ?env (put 1 (?s\<lparr>rhs := Some [2, 4, 6, 8]\<rparr>) (ex_ready (Some to_zero)))
                  (shell_matrix 1 (LocalSize (localmesh ?s))) [2, 4, 6, 8] [0, 0, 0, 0]"
  have h3: "lhs ?s = Some [0, 0, 0, 0]"
    and h4: "ksp ?s = Some \<lparr>ksp_operators = Some (shell_matrix 1 4, shell_matrix 1 4),
                  ksp_options_prefix = ''invert_'', ksp_from_options = True,
                  ksp_is_set_up = True, ksp_reason = 0\<rparr>"
    by (simp_all add: ex_session_def)
  have b: "allocated ?b" "fdata ?b = Some [2, 4, 6, 8]" "getMesh ?b = localmesh ?s"
    by (simp_all add: ex_session_def ex_defs allocated_def)
  have e: "ierr ?env VecGetArray = 0" "ierr ?env VecRestoreArray = 0"
    by (simp_all add: ex_defs)
  have "fst ?solve = Inr (91, -5, [0, 0, 0, 0])"
    by (simp add: ex_session_def shell_matrix_def ex_defs model_defs)
  then have sv: "?solve = (Inr (91, -5, [0, 0, 0, 0]), snd ?solve)"
    by (metis prod.collapse)
  have r: "T_of_ierr ?env 91 = ex_field [91, 91, 91, 91]" "ierr ?env KSPSolve = 91"
    by (simp_all add: ex_defs)
  have thrown: "fst (invert ex_env 1 (ex_ready (Some to_zero)) ?b)
                = Inl (BoutException ''KSPSolve failed with reason %d.'' [-5])"
    by (simp add: ex_defs model_defs)
  have reason: "converged_reason 1 (snd (invert ?env 1 (ex_ready (Some to_zero)) ?b)) = Some (-5)"
    by (simp add: converged_reason_def ex_defs model_defs)
  show ?thesis
    using invert_returns_field_on_solve_error[OF ex_ready_session ex_session_set_up h3 h4 b e sv]
          r thrown reason
    by simp
qed

text \<open>
  C8. With \<^verbatim>\<open>CHECK > 1\<close>, \<^verbatim>\<open>verify(b, tol)\<close> runs \<^verbatim>\<open>invert(b)\<close>; an exception of
  \<^verbatim>\<open>invert\<close> passes through; otherwise, with \<open>x\<close> the field that \<^verbatim>\<open>invert\<close> returned, the
  result is the truth value of \<^verbatim>\<open>max(abs(f(x) - b), true) < tol\<close>, where \<open>f\<close> is the function
  bound to the session: \<open>true\<close> exactly when that maximum is strictly below \<open>tol\<close>.
\<close>

theorem verify_checks_residual:
  assumes "1 < CHECK env" and "objs w this = Some s"
  shows "verify env this w b tol =
           (case invert env this w b of
              (Inl e, w') \<Rightarrow> (Inl e, w')
            | (Inr x, w') \<Rightarrow>
                (Inr (less_than env
                        (field_max env
                           (field_abs env (field_minus env (operatorFunction s x) b)) True)
                        tol),
                 w'))"
proof -
  obtain ri wi where iv: "invert env this w b = (ri, wi)"
    by (cases "invert env this w b")
  from invert_outcome[OF assms(2) iv] obtain s' where
    "objs wi this = Some s'" "operatorFunction s' = operatorFunction s" by blast
  then have "operator_call this wi x = Inr (operatorFunction s x)" for x
    by (simp add: operator_call_def)
  then show ?thesis
    using assms(1) iv by (simp add: verify_def Let_def split: sum.splits)
qed

theorem verify_checks_residual_witness:
  "1 < CHECK ex_env \<and>
   fst (invert ex_env 1 (ex_ready (Some twice)) (ex_field [3, 4, 6, 8]))
     = Inr (ex_field [1, 2, 3, 4]) \<and>
   field_max ex_env (field_abs ex_env
      (field_minus ex_env (twice (ex_field [1, 2, 3, 4])) (ex_field [3, 4, 6, 8]))) True = 1 \<and>
   fst (verify ex_env 1 (ex_ready (Some twice)) (ex_field [3, 4, 6, 8]) 2) = Inr True \<and>
   fst (verify ex_env 1 (ex_ready (Some twice)) (ex_field [3, 4, 6, 8]) 1) = Inr False"
proof -
  have c: "1 < CHECK ex_env" by (simp add: ex_defs)
  have iv: "fst (invert ex_env 1 (ex_ready (Some twice)) (ex_field [3, 4, 6, 8]))
            = Inr (ex_field [1, 2, 3, 4])"
    by (simp add: ex_defs model_defs)
  have f: "operatorFunction (ex_session twice) = twice"
    by (simp add: ex_session_def)
  have r: "field_max ex_env (field_abs ex_env
      (field_minus ex_env (twice (ex_field [1, 2, 3, 4])) (ex_field [3, 4, 6, 8]))) True = 1"
    by (simp add: ex_defs)
  have l: "less_than ex_env 1 2" "\<not> less_than ex_env 1 1"
    by (simp_all add: ex_defs)
  show ?thesis
    using verify_checks_residual[OF c ex_ready_session, of twice "ex_field [3, 4, 6, 8]" 2]
          verify_checks_residual[OF c ex_ready_session, of twice "ex_field [3, 4, 6, 8]" 1]
          c iv f r l
    by (auto split: prod.splits sum.splits)
qed


subsection \<open>The multiplication that PETSc calls back\<close>




text \<open>
  C9. On a session in any state, set up or not, \<^verbatim>\<open>setOperatorFunction(g)\<close> succeeds, and
  at every later moment, after any calls that do not rebind the function again,
  \<^verbatim>\<open>operator()\<close> and \<^verbatim>\<open>apply\<close> compute \<open>g\<close>, whatever function was bound before (and so
  whatever function was bound when \<^verbatim>\<open>setup()\<close> ran). The multiplication of the session's
  matrix follows the context pointer at each invocation and computes
  \<open>pack (g (unpack v1))\<close>, also in the store in which \<^verbatim>\<open>invert\<close> runs the solver (the
  right-hand-side vector replaced).
\<close>

theorem rebinding_takes_effect:
  assumes "objs w this = Some s" and "setOperatorFunction this g w = (r, w1)"
    and "run w1 calls = Some w2"
    and "list_all (\<lambda>(e, a, c). \<not> (a = this \<and> is_SetOperatorFunction c)) calls"
    and "ierr env MatShellGetContext = 0"
    and "ierr env VecGetArray = 0" and "ierr env VecRestoreArray = 0"
    and "ierr env VecGetArrayRead = 0" and "ierr env VecRestoreArrayRead = 0"
    and "length v1 = LocalSize (localmesh s)" and "length v2 = LocalSize (localmesh s)"
    and "allocated (g \<lparr>getMesh = localmesh s, fdata = Some v1\<rparr>)"
    and "fdata (g \<lparr>getMesh = localmesh s, fdata = Some v1\<rparr>) = Some d"
    and "LocalSize (getMesh (g \<lparr>getMesh = localmesh s, fdata = Some v1\<rparr>))
         = LocalSize (localmesh s)"
  shows "r = Inr () \<and>
         (\<exists>s2. objs w2 this = Some s2 \<and> operatorFunction s2 = g \<and>
            operator_call this w2 f = Inr (g f) \<and> apply_call this w2 f = Inr (g f) \<and>
            MatMult env w2 (shell_matrix this (LocalSize (localmesh s))) v1 v2
              = ((Inr 0, d), w2\<lparr>allocations := Suc (allocations w2)\<rparr>) \<and>
            MatMult env (put this (s2\<lparr>rhs := Some rhs1\<rparr>) w2)
              (shell_matrix this (LocalSize (localmesh s))) v1 v2
              = ((Inr 0, d),
                 (put this (s2\<lparr>rhs := Some rhs1\<rparr>) w2)\<lparr>allocations := Suc (allocations w2)\<rparr>) \<and>
            MatMult env ((put this (s2\<lparr>rhs := Some rhs1\<rparr>) w2)\<lparr>allocations := n\<rparr>)
              (shell_matrix this (LocalSize (localmesh s))) v1 v2
              = ((Inr 0, d), (put this (s2\<lparr>rhs := Some rhs1\<rparr>) w2)\<lparr>allocations := Suc n\<rparr>))"
proof -
  let ?m = "shell_matrix this (LocalSize (localmesh s))"
  have set: "r = Inr ()" "w1 = put this (s\<lparr>operatorFunction := g\<rparr>) w"
    using assms(1,2) by (simp_all add: setOperatorFunction_def)
  have o1: "objs w1 this = Some (s\<lparr>operatorFunction := g\<rparr>)"
    by (simp add: set(2) put_def)
  from run_keeps_function[OF assms(3) o1 assms(4)] obtain s2 where
    s2: "objs w2 this = Some s2" "operatorFunction s2 = g" "localmesh s2 = localmesh s"
    by auto
  have call: "operator_call this w2 f = Inr (g f)" "apply_call this w2 f = Inr (g f)"
    using s2 by (simp_all add: operator_call_def apply_call_def)
  have ld: "length d = LocalSize (getMesh (g \<lparr>getMesh = localmesh s, fdata = Some v1\<rparr>))"
    using assms(12,13) by (simp add: allocated_def)
  have fw: "functionWrapper env W ?m v1 v2 = ((Inr 0, d), W\<lparr>allocations := Suc (allocations W)\<rparr>)"
    if "objs W this = Some c" "localmesh c = localmesh s" "operatorFunction c = g"
    for W :: "'a world" and c
  proof -
    have ctx: "objs W (mat_ctx ?m) = Some c" using that(1) by (simp add: shell_matrix_def)
    show ?thesis
      using functionWrapper_computes[OF ctx assms(5-9), of v1 _ d v2] that(2,3)
            assms(10,11,13,14) ld
      by simp
  qed
  let ?w = "put this (s2\<lparr>rhs := Some rhs1\<rparr>) w2"
  have mm: "MatMult env w2 ?m v1 v2 = ((Inr 0, d), w2\<lparr>allocations := Suc (allocations w2)\<rparr>)"
    using fw[OF s2(1,3,2)] by (simp add: MatMult_shell)
  have mm': "MatMult env ?w ?m v1 v2 = ((Inr 0, d), ?w\<lparr>allocations := Suc (allocations w2)\<rparr>)"
    using fw[of ?w "s2\<lparr>rhs := Some rhs1\<rparr>"] s2(2,3)
    by (simp add: MatMult_shell put_def)
  have mm'': "MatMult env (?w\<lparr>allocations := n\<rparr>) ?m v1 v2
              = ((Inr 0, d), ?w\<lparr>allocations := Suc n\<rparr>)"
    using fw[of "?w\<lparr>allocations := n\<rparr>" "s2\<lparr>rhs := Some rhs1\<rparr>"] s2(2,3)
    by (simp add: MatMult_shell put_def)
  show ?thesis using set(1) s2(1,2) call mm mm' mm'' by blast
qed

theorem rebinding_takes_effect_witness:
  "setOperatorFunction 1 thrice (ex_ready (Some twice)) = (Inr (), ex_ready (Some thrice)) \<and>
   run (ex_ready (Some thrice)) [(ex_env, 1, Invert (ex_field [3, 6, 9, 12]))] = Some ex_solved \<and>
   fst (invert ex_env 1 (ex_ready (Some thrice)) (ex_field [3, 6, 9, 12]))
     = Inr (ex_field [1, 2, 3, 4]) \<and>
   apply_call 1 ex_solved (ex_field [1, 2, 3, 4]) = Inr (ex_field [3, 6, 9, 12]) \<and>
   MatMult ex_env ex_solved (shell_matrix 1 4) [1, 2, 3, 4] [0, 0, 0, 0]
     = ((Inr 0, [3, 6, 9, 12]), ex_solved\<lparr>allocations := Suc (allocations ex_solved)\<rparr>)"
proof -
  let ?s = "ex_session twice"
  have h2: "setOperatorFunction 1 thrice (ex_ready (Some twice)) = (Inr (), ex_ready (Some thrice))"
    by (simp add: ex_defs model_defs)
  have h3: "run (ex_ready (Some thrice)) [(ex_env, 1, Invert (ex_field [3, 6, 9, 12]))]
            = Some ex_solved"
    by (simp add: ex_solved_def ex_defs model_defs)
  have h4: "list_all (\<lambda>(e, a, c). \<not> (a = 1 \<and> is_SetOperatorFunction c))
              [(ex_env, 1, Invert (ex_field [3, 6, 9, 12]))]"
    by simp
  have e: "ierr ex_env MatShellGetContext = 0"
    "ierr ex_env VecGetArray = 0" "ierr ex_env VecRestoreArray = 0"
    "ierr ex_env VecGetArrayRead = 0" "ierr ex_env VecRestoreArrayRead = 0"
    by (simp_all add: ex_defs)
  have n: "LocalSize (localmesh ?s) = 4"
    by (simp add: ex_session_def ex_defs)
  have l: "length [1, 2, 3, 4 :: int] = LocalSize (localmesh ?s)"
    "length [0, 0, 0, 0 :: int] = LocalSize (localmesh ?s)"
    using n by simp_all
  have t: "thrice \<lparr>getMesh = localmesh ?s, fdata = Some [1, 2, 3, 4]\<rparr> = ex_field [3, 6, 9, 12]"
    by (simp add: ex_session_def ex_defs)
  have g: "allocated (thrice \<lparr>getMesh = localmesh ?s, fdata = Some [1, 2, 3, 4]\<rparr>)"
    "fdata (thrice \<lparr>getMesh = localmesh ?s, fdata = Some [1, 2, 3, 4]\<rparr>) = Some [3, 6, 9, 12]"
    "LocalSize (getMesh (thrice \<lparr>getMesh = localmesh ?s, fdata = Some [1, 2, 3, 4]\<rparr>))
     = LocalSize (localmesh ?s)"
    unfolding t using n by (simp_all add: ex_defs allocated_def)
  have ap: "thrice (ex_field [1, 2, 3, 4]) = ex_field [3, 6, 9, 12]"
    by (simp add: ex_defs)
  have iv: "fst (invert ex_env 1 (ex_ready (Some thrice)) (ex_field [3, 6, 9, 12]))
            = Inr (ex_field [1, 2, 3, 4])"
    by (simp add: ex_defs model_defs)
  show ?thesis
    using rebinding_takes_effect[where g = thrice and f = "ex_field [1, 2, 3, 4]"
            and ?rhs1.0 = "[0, 0, 0, 0]" and n = 0, OF ex_ready_session h2 h3 h4 e l g]
          h2 h3 ap iv n
    by auto
qed

end
